theory Spec2Isabelle
  imports Main
begin

section \<open>Data model\<close>

text \<open>
  The ticket lifecycle of the HIT ticket management system: the Sequelize models
  (\<^verbatim>\<open>Ticket\<close>, \<^verbatim>\<open>TicketAssignment\<close>, \<^verbatim>\<open>TicketHistory\<close>,
  \<^verbatim>\<open>TicketApproval\<close>), the helpers that the models index exports, and the handlers of the
  tickets router, the assignments router and the admin router.

  Identifiers are strings, as in the source. A nullable column is an \<open>option\<close>. A
  \<^verbatim>\<open>Date\<close> is its \<^verbatim>\<open>getTime()\<close> value, an integer number of milliseconds.
  The status column is the seven-valued enum of the model; a status that arrives in a
  request body is still a string. A notification is kept as its recipient and its type.
  The records keep the columns that the handlers below read or set by name; the other
  columns are left out, among them \<^verbatim>\<open>updated_at\<close>, which every update of a row stamps.

  A handler is modelled from its first statement on: the middleware that authenticates
  the caller, checks the caller's permission and validates the body has run, and the
  handler is given the authenticated user.
\<close>

datatype status = Pending | AdminReview | Approved | Rejected | InProgress | Completed | Closed

fun status_name :: "status \<Rightarrow> string" where
  "status_name Pending = ''pending''"
| "status_name AdminReview = ''admin_review''"
| "status_name Approved = ''approved''"
| "status_name Rejected = ''rejected''"
| "status_name InProgress = ''in_progress''"
| "status_name Completed = ''completed''"
| "status_name Closed = ''closed''"

definition status_of_name :: "string \<Rightarrow> status option" where
  "status_of_name s =
     (if s = ''pending'' then Some Pending
      else if s = ''admin_review'' then Some AdminReview
      else if s = ''approved'' then Some Approved
      else if s = ''rejected'' then Some Rejected
      else if s = ''in_progress'' then Some InProgress
      else if s = ''completed'' then Some Completed
      else if s = ''closed'' then Some Closed
      else None)"

datatype role = Employee | SupportStaff | Manager | Admin

datatype action =
  Created | Updated | StatusChanged | Assigned | ApprovedAction | RejectedAction | Commented
  | ClosedAction

datatype decision = DecisionPending | DecisionApproved | DecisionRejected

record ticket =
  t_id :: string
  t_ticket_number :: string
  t_title :: string
  t_description :: string
  t_priority :: string
  t_status :: status
  t_factory_id :: string
  t_requester_id :: string
  t_assigned_to :: "string option"
  t_urgency_level :: int
  t_sla_deadline :: "int option"
  t_created_at :: int
  t_approved_at :: "int option"

record user =
  u_id :: string
  u_role :: role
  u_factory_id :: "string option"
  u_is_active :: bool

record assignment =
  a_ticket_id :: string
  a_assigned_to :: string
  a_assigned_by :: string
  a_assignment_reason :: "string option"
  a_is_active :: bool
  a_completed_at :: "int option"

record history_entry =
  h_ticket_id :: string
  h_user_id :: string
  h_action :: action
  h_old_value :: "string option"
  h_new_value :: "string option"
  h_field_name :: "string option"
  h_comment :: "string option"

record approval =
  ap_ticket_id :: string
  ap_admin_id :: string
  ap_decision :: decision
  ap_reason :: "string option"
  ap_decided_at :: "int option"

record notification =
  n_user_id :: string
  n_type :: string

text \<open>
  The tables the handlers read and write. The rows of a table are kept in insertion
  order; \<^verbatim>\<open>Model.create\<close> appends a row.
\<close>

record db =
  tickets :: "ticket list"
  users :: "user list"
  factories :: "string list"
  assignments :: "assignment list"
  history :: "history_entry list"
  approvals :: "approval list"
  notifications :: "notification list"

section \<open>The transition table\<close>

text \<open>\<^verbatim>\<open>VALID_STATUS_TRANSITIONS\<close> of the tickets router, keyed by the ticket's status.\<close>

fun VALID_STATUS_TRANSITIONS :: "status \<Rightarrow> string list" where
  "VALID_STATUS_TRANSITIONS Pending = [''admin_review'']"
| "VALID_STATUS_TRANSITIONS AdminReview = [''approved'', ''rejected'']"
| "VALID_STATUS_TRANSITIONS Approved = [''in_progress'']"
| "VALID_STATUS_TRANSITIONS Rejected = []"
| "VALID_STATUS_TRANSITIONS InProgress = [''completed'']"
| "VALID_STATUS_TRANSITIONS Completed = [''closed'']"
| "VALID_STATUS_TRANSITIONS Closed = []"

definition isValidStatusTransition :: "status \<Rightarrow> string \<Rightarrow> bool" where
  "isValidStatusTransition currentStatus newStatus =
     (newStatus \<in> set (VALID_STATUS_TRANSITIONS currentStatus))"

text \<open>The edges of the table of the specification, on the enum itself.\<close>

definition transition_edges :: "(status \<times> status) list" where
  "transition_edges =
     [(Pending, AdminReview), (AdminReview, Approved), (AdminReview, Rejected),
      (Approved, InProgress), (InProgress, Completed), (Completed, Closed)]"

definition transition_edge :: "status \<Rightarrow> status \<Rightarrow> bool" where
  "transition_edge a b = ((a, b) \<in> set transition_edges)"

section \<open>The SLA calculator and the overdue test\<close>

text \<open>
  Time values, as the language defines them for \<^verbatim>\<open>Date\<close>: a \<^verbatim>\<open>Date\<close> holds an integer
  number of milliseconds since the epoch, at most \<open>8.64 * 10^15\<close> in absolute value, or is
  invalid (\<open>None\<close>). The local time zone adjustment is an input: \<open>offsetAtUTC\<close> is the
  offset of local time from UTC at a UTC time value, \<open>offsetAtLocal\<close> the offset at a
  local time value (where the two differ, the clock of the zone has been moved).
\<close>

definition msPerSecond :: int where
  "msPerSecond = 1000"

definition msPerMinute :: int where
  "msPerMinute = 60000"

definition msPerHour :: int where
  "msPerHour = 3600000"

definition msPerDay :: int where
  "msPerDay = 86400000"

definition maxTime :: int where
  "maxTime = 8640000000000000"

definition Day :: "int \<Rightarrow> int" where
  "Day t = t div msPerDay"

definition HourFromTime :: "int \<Rightarrow> int" where
  "HourFromTime t = (t div msPerHour) mod 24"

definition MinFromTime :: "int \<Rightarrow> int" where
  "MinFromTime t = (t div msPerMinute) mod 60"

definition SecFromTime :: "int \<Rightarrow> int" where
  "SecFromTime t = (t div msPerSecond) mod 60"

definition msFromTime :: "int \<Rightarrow> int" where
  "msFromTime t = t mod msPerSecond"

definition MakeTime :: "int \<Rightarrow> int \<Rightarrow> int \<Rightarrow> int \<Rightarrow> int" where
  "MakeTime hour minute sec ms = hour * msPerHour + minute * msPerMinute + sec * msPerSecond + ms"

definition MakeDate :: "int \<Rightarrow> int \<Rightarrow> int" where
  "MakeDate day time = day * msPerDay + time"

definition TimeClip :: "int \<Rightarrow> int option" where
  "TimeClip time = (if \<bar>time\<bar> > maxTime then None else Some time)"

record zone =
  offsetAtUTC :: "int \<Rightarrow> int"
  offsetAtLocal :: "int \<Rightarrow> int"

definition LocalTime :: "zone \<Rightarrow> int \<Rightarrow> int" where
  "LocalTime z t = t + offsetAtUTC z t"

definition UTC :: "zone \<Rightarrow> int \<Rightarrow> int" where
  "UTC z t = t - offsetAtLocal z t"

text \<open>
  \<^verbatim>\<open>date.getHours()\<close> and \<^verbatim>\<open>date.setHours(hour)\<close> on a valid time value: the hour is
  read and written on the local wall clock.
\<close>

definition getHours :: "zone \<Rightarrow> int \<Rightarrow> int" where
  "getHours z t = HourFromTime (LocalTime z t)"

definition setHours :: "zone \<Rightarrow> int \<Rightarrow> int \<Rightarrow> int option" where
  "setHours z t hour =
     (let local = LocalTime z t;
          date = MakeDate (Day local)
                   (MakeTime hour (MinFromTime local) (SecFromTime local) (msFromTime local))
      in TimeClip (UTC z date))"

text \<open>\<^verbatim>\<open>deadline.setHours(deadline.getHours() + h)\<close>; an invalid date stays invalid.\<close>

definition addHours :: "zone \<Rightarrow> int option \<Rightarrow> int \<Rightarrow> int option" where
  "addHours z deadline h =
     (case deadline of None \<Rightarrow> None | Some t \<Rightarrow> setHours z t (getHours z t + h))"

text \<open>
  \<^verbatim>\<open>calculateSLADeadline\<close> of the models index, in the time zone of the process. The
  argument \<open>createdAt\<close> is the value \<^verbatim>\<open>new Date(createdAt)\<close> is built from: the time
  value of a valid \<^verbatim>\<open>Date\<close>, or the number itself when a number is passed.
\<close>

definition calculateSLADeadline :: "zone \<Rightarrow> string \<Rightarrow> int \<Rightarrow> int option" where
  "calculateSLADeadline z priority createdAt =
     (let deadline = TimeClip createdAt in
      if priority = ''critical'' then addHours z deadline 2
      else if priority = ''high'' then addHours z deadline 8
      else if priority = ''medium'' then addHours z deadline 24
      else if priority = ''low'' then addHours z deadline 72
      else addHours z deadline 24)"

text \<open>The offsets of the specification, in hours.\<close>

definition slaHours :: "string \<Rightarrow> int" where
  "slaHours priority =
     (if priority = ''critical'' then 2
      else if priority = ''high'' then 8
      else if priority = ''medium'' then 24
      else if priority = ''low'' then 72
      else 24)"

text \<open>
  A zone with one offset, and a zone whose clock is moved forward by an hour, from five
  to four hours behind UTC, at 2024-03-10T07:00:00Z (as the clocks of New York were).
\<close>

definition fixedZone :: "int \<Rightarrow> zone" where
  "fixedZone c = \<lparr>offsetAtUTC = (\<lambda>t. c), offsetAtLocal = (\<lambda>t. c)\<rparr>"

definition springForward :: int where
  "springForward = 1710054000000"

definition springZone :: zone where
  "springZone =
     \<lparr>offsetAtUTC = (\<lambda>t. if t < springForward then - 5 * msPerHour else - 4 * msPerHour),
      offsetAtLocal = (\<lambda>t. if t < springForward - 4 * msPerHour then - 5 * msPerHour
                            else - 4 * msPerHour)\<rparr>"

text \<open>The predicates of the \<^verbatim>\<open>Ticket\<close> class; \<open>now\<close> is the value of \<^verbatim>\<open>new Date()\<close>.\<close>

definition isCompleted :: "ticket \<Rightarrow> bool" where
  "isCompleted t = (t_status t = Completed)"

definition isClosed :: "ticket \<Rightarrow> bool" where
  "isClosed t = (t_status t = Closed)"

definition isOverdue :: "ticket \<Rightarrow> int \<Rightarrow> bool" where
  "isOverdue t now =
     (case t_sla_deadline t of
        None \<Rightarrow> False
      | Some deadline \<Rightarrow>
          if isCompleted t \<or> isClosed t then False else now > deadline)"

section \<open>Table access\<close>

text \<open>
  What a handler answers when it does not succeed. Every early return of the handlers
  below comes before their first write, so the tables that accompany an error are the
  tables the handler was given. Failures of the storage layer itself (a lost connection)
  are outside the model; the constraints that the models declare are inside it.
\<close>

datatype error =
    StatusRequired
  | TicketNotFound
  | AccessDenied
  | InvalidStatusTransition status string
  | DecisionRequired
  | NotInAdminReview
  | TicketIdsRequired
  | AssignedUserRequired
  | OnlyApprovedAssignable
  | InvalidAssignee
  | AlreadyAssigned
  | OtherFactory
  | WorkloadLimitReached nat
  | NotCurrentlyAssigned
  | FactoryIdRequired
  | NoSupportStaff
  | RequiredFieldsMissing
  | FactoryNotFound
  | ConstraintViolation

text \<open>JavaScript's \<^verbatim>\<open>!x\<close> on a value that is a string, \<^verbatim>\<open>null\<close> or \<^verbatim>\<open>undefined\<close>.\<close>

definition falsy :: "string option \<Rightarrow> bool" where
  "falsy x = (case x of None \<Rightarrow> True | Some s \<Rightarrow> s = [])"

definition str :: "string option \<Rightarrow> string" where
  "str x = (case x of None \<Rightarrow> [] | Some s \<Rightarrow> s)"

definition findByPk :: "db \<Rightarrow> string \<Rightarrow> ticket option" where
  "findByPk d i = find (\<lambda>t. t_id t = i) (tickets d)"

definition findUserByPk :: "db \<Rightarrow> string \<Rightarrow> user option" where
  "findUserByPk d i = find (\<lambda>u. u_id u = i) (users d)"

text \<open>\<^verbatim>\<open>ticket.update(values)\<close>: the row with the ticket's primary key takes the values.\<close>

definition update_ticket :: "db \<Rightarrow> string \<Rightarrow> (ticket \<Rightarrow> ticket) \<Rightarrow> db" where
  "update_ticket d i f = d\<lparr>tickets := map (\<lambda>t. if t_id t = i then f t else t) (tickets d)\<rparr>"

text \<open>
  \<^verbatim>\<open>createTicketHistory\<close> of the tickets router and the direct
  \<^verbatim>\<open>TicketHistory.create\<close> calls of the other routes (the free-form metadata is left out).
\<close>

definition createTicketHistory ::
  "db \<Rightarrow> string \<Rightarrow> string \<Rightarrow> action \<Rightarrow> string option \<Rightarrow> string option \<Rightarrow> string option
     \<Rightarrow> string option \<Rightarrow> db" where
  "createTicketHistory d ticketId userId act oldValue newValue fieldName comment =
     d\<lparr>history := history d @
        [\<lparr>h_ticket_id = ticketId, h_user_id = userId, h_action = act, h_old_value = oldValue,
          h_new_value = newValue, h_field_name = fieldName, h_comment = comment\<rparr>]\<rparr>"

definition createNotification :: "db \<Rightarrow> string \<Rightarrow> string \<Rightarrow> db" where
  "createNotification d userId type =
     d\<lparr>notifications := notifications d @ [\<lparr>n_user_id = userId, n_type = type\<rparr>]\<rparr>"

definition notifyAdmins :: "db \<Rightarrow> string \<Rightarrow> db" where
  "notifyAdmins d type =
     foldl (\<lambda>acc admin. createNotification acc (u_id admin) type) d
       (filter (\<lambda>u. u_role u = Admin) (users d))"

text \<open>
  \<^verbatim>\<open>TicketAssignment.update({is_active: false}, {where: {ticket_id, is_active: true}})\<close>
  and \<^verbatim>\<open>TicketAssignment.create({..., is_active: true})\<close>.
\<close>

definition deactivateAssignments :: "db \<Rightarrow> string \<Rightarrow> db" where
  "deactivateAssignments d ticketId =
     d\<lparr>assignments :=
        map (\<lambda>a. if a_ticket_id a = ticketId \<and> a_is_active a then a\<lparr>a_is_active := False\<rparr> else a)
          (assignments d)\<rparr>"

definition createAssignment :: "db \<Rightarrow> string \<Rightarrow> string \<Rightarrow> string \<Rightarrow> string option \<Rightarrow> db" where
  "createAssignment d ticketId assignedTo assignedBy reason =
     d\<lparr>assignments := assignments d @
        [\<lparr>a_ticket_id = ticketId, a_assigned_to = assignedTo, a_assigned_by = assignedBy,
          a_assignment_reason = reason, a_is_active = True, a_completed_at = None\<rparr>]\<rparr>"

definition checkTicketAccess :: "ticket \<Rightarrow> user \<Rightarrow> bool" where
  "checkTicketAccess t u =
     (if u_role u = Admin then True
      else if u_role u = Manager then Some (t_factory_id t) = u_factory_id u
      else if u_role u = SupportStaff then
        t_assigned_to t = Some (u_id u) \<or> Some (t_factory_id t) = u_factory_id u
      else if u_role u = Employee then t_requester_id t = u_id u
      else False)"

definition supportRole :: "role \<Rightarrow> bool" where
  "supportRole r = (r = SupportStaff \<or> r = Manager)"

text \<open>
  \<^verbatim>\<open>Ticket.count({where: {assigned_to: userId, status: ['in_progress', 'approved']}})\<close>.
\<close>

definition activeTicketCount :: "db \<Rightarrow> string \<Rightarrow> nat" where
  "activeTicketCount d userId =
     length (filter (\<lambda>t. t_assigned_to t = Some userId \<and>
                          (t_status t = InProgress \<or> t_status t = Approved)) (tickets d))"

section \<open>Ticket creation\<close>

text \<open>
  \<^verbatim>\<open>router.post('/')\<close> of the tickets router, from the request body on. The
  time zone of the process, the primary key the storage layer draws, the ticket number
  that \<^verbatim>\<open>generateTicketNumber\<close> returned and the clock are inputs. The checks of the
  \<^verbatim>\<open>Ticket\<close> model (lengths, the priority enum, the urgency range, the two unique
  columns) make \<^verbatim>\<open>Ticket.create\<close> throw, and so does a deadline that is an invalid
  date, which the column cannot hold.
\<close>

record create_body =
  cb_title :: "string option"
  cb_description :: "string option"
  cb_priority :: "string option"
  cb_factory_id :: "string option"
  cb_urgency_level :: "int option"

definition ticketModelValid :: "db \<Rightarrow> ticket \<Rightarrow> bool" where
  "ticketModelValid d t =
     (length (t_title t) \<le> 255 \<and> length (t_description t) \<le> 5000
      \<and> t_priority t \<in> set [''low'', ''medium'', ''high'', ''critical'']
      \<and> 1 \<le> t_urgency_level t \<and> t_urgency_level t \<le> 5
      \<and> t_id t \<notin> set (map t_id (tickets d))
      \<and> t_ticket_number t \<notin> set (map t_ticket_number (tickets d)))"

definition create_ticket ::
  "zone \<Rightarrow> db \<Rightarrow> user \<Rightarrow> create_body \<Rightarrow> string \<Rightarrow> string \<Rightarrow> int \<Rightarrow> (error + ticket) \<times> db" where
  "create_ticket z d reqUser body newId ticketNumber now =
     (let priority = (case cb_priority body of None \<Rightarrow> ''medium'' | Some p \<Rightarrow> p);
          urgency_level = (case cb_urgency_level body of None \<Rightarrow> 3 | Some u \<Rightarrow> u)
      in
      if falsy (cb_title body) \<or> falsy (cb_description body) \<or> falsy (cb_factory_id body)
      then (Inl RequiredFieldsMissing, d)
      else if str (cb_factory_id body) \<notin> set (factories d) then (Inl FactoryNotFound, d)
      else
        let slaDeadline = calculateSLADeadline z priority urgency_level;
            ticket = \<lparr>t_id = newId, t_ticket_number = ticketNumber,
                      t_title = str (cb_title body), t_description = str (cb_description body),
                      t_priority = priority, t_status = Pending,
                      t_factory_id = str (cb_factory_id body), t_requester_id = u_id reqUser,
                      t_assigned_to = None, t_urgency_level = urgency_level,
                      t_sla_deadline = slaDeadline, t_created_at = now,
                      t_approved_at = None\<rparr>
        in
        if slaDeadline = None \<or> \<not> ticketModelValid d ticket then (Inl ConstraintViolation, d)
        else
          let d1 = d\<lparr>tickets := tickets d @ [ticket]\<rparr>;
              d2 = createTicketHistory d1 (t_id ticket) (u_id reqUser) Created None
                     (Some ''pending'') (Some ''status'') (Some ''Ticket created'');
              d3 = notifyAdmins d2 ''ticket_created''
          in (Inr ticket, d3))"

section \<open>Status update and approval\<close>

text \<open>
  \<^verbatim>\<open>router.put('/:id/status')\<close>. The history entry is written after
  \<^verbatim>\<open>ticket.update({ status })\<close>, and reads \<^verbatim>\<open>ticket.status\<close> from the instance that
  the update has just changed.
\<close>

definition update_status ::
  "db \<Rightarrow> user \<Rightarrow> string \<Rightarrow> string option \<Rightarrow> string option \<Rightarrow> (error + unit) \<times> db" where
  "update_status d reqUser i status comment =
     (if falsy status then (Inl StatusRequired, d)
      else case findByPk d i of
        None \<Rightarrow> (Inl TicketNotFound, d)
      | Some ticket \<Rightarrow>
          if \<not> checkTicketAccess ticket reqUser then (Inl AccessDenied, d)
          else if \<not> isValidStatusTransition (t_status ticket) (str status)
          then (Inl (InvalidStatusTransition (t_status ticket) (str status)), d)
          else (case status_of_name (str status) of
            None \<Rightarrow> (Inl ConstraintViolation, d)
          | Some newStatus \<Rightarrow>
              let d1 = update_ticket d (t_id ticket) (\<lambda>t. t\<lparr>t_status := newStatus\<rparr>);
                  ticket1 = ticket\<lparr>t_status := newStatus\<rparr>;
                  d2 = createTicketHistory d1 (t_id ticket1) (u_id reqUser) StatusChanged
                         (Some (status_name (t_status ticket1))) status (Some ''status'') comment;
                  d3 = (if str status = ''admin_review''
                        then notifyAdmins d2 ''ticket_review_required''
                        else if str status = ''completed''
                        then createNotification d2 (t_requester_id ticket1) ''ticket_completed''
                        else d2)
              in (Inr (), d3)))"

text \<open>
  The body shared by \<^verbatim>\<open>router.post('/:id/approve')\<close> of the tickets router and one
  iteration of \<^verbatim>\<open>router.post('/tickets/bulk-approve')\<close> of the admin router, once the
  decision has been checked: the two texts agree statement for statement.
\<close>

definition decide_one ::
  "db \<Rightarrow> user \<Rightarrow> string \<Rightarrow> string \<Rightarrow> string option \<Rightarrow> int \<Rightarrow> (error + unit) \<times> db" where
  "decide_one d reqUser i dec reason now =
     (case findByPk d i of
        None \<Rightarrow> (Inl TicketNotFound, d)
      | Some ticket \<Rightarrow>
          if t_status ticket \<noteq> AdminReview then (Inl NotInAdminReview, d)
          else (case status_of_name dec of
            None \<Rightarrow> (Inl ConstraintViolation, d)
          | Some newStatus \<Rightarrow>
              let d1 = update_ticket d (t_id ticket) (\<lambda>t. t\<lparr>t_status := newStatus\<rparr>);
                  d2 = d1\<lparr>approvals := approvals d1 @
                         [\<lparr>ap_ticket_id = i, ap_admin_id = u_id reqUser,
                           ap_decision = (if dec = ''approved'' then DecisionApproved
                                          else DecisionRejected),
                           ap_reason = reason, ap_decided_at = Some now\<rparr>]\<rparr>;
                  d3 = createTicketHistory d2 (t_id ticket) (u_id reqUser)
                         (if dec = ''approved'' then ApprovedAction else RejectedAction)
                         (Some ''admin_review'') (Some dec) (Some ''status'') reason;
                  d4 = createNotification d3 (t_requester_id ticket) (''ticket_'' @ dec)
              in (Inr (), d4)))"

definition validDecision :: "string option \<Rightarrow> bool" where
  "validDecision decision =
     (\<not> falsy decision \<and> str decision \<in> set [''approved'', ''rejected''])"

definition approve_ticket ::
  "db \<Rightarrow> user \<Rightarrow> string \<Rightarrow> string option \<Rightarrow> string option \<Rightarrow> int \<Rightarrow> (error + unit) \<times> db" where
  "approve_ticket d reqUser i decision reason now =
     (if \<not> validDecision decision then (Inl DecisionRequired, d)
      else decide_one d reqUser i (str decision) reason now)"

text \<open>
  The loop of the bulk route: a ticket that fails is recorded and the loop goes on.
  Every iteration reads the clock; the model gives them one reading.
\<close>

fun bulk_loop ::
  "user \<Rightarrow> string \<Rightarrow> string option \<Rightarrow> int \<Rightarrow> string list \<Rightarrow> string list \<Rightarrow> (string \<times> error) list
     \<Rightarrow> db \<Rightarrow> (string list \<times> (string \<times> error) list) \<times> db" where
  "bulk_loop reqUser dec reason now [] results errors d = ((results, errors), d)"
| "bulk_loop reqUser dec reason now (ticketId # rest) results errors d =
     (case decide_one d reqUser ticketId dec reason now of
        (Inl e, d1) \<Rightarrow> bulk_loop reqUser dec reason now rest results (errors @ [(ticketId, e)]) d1
      | (Inr u, d1) \<Rightarrow> bulk_loop reqUser dec reason now rest (results @ [ticketId]) errors d1)"

definition bulk_approve ::
  "db \<Rightarrow> user \<Rightarrow> string list option \<Rightarrow> string option \<Rightarrow> string option \<Rightarrow> int
     \<Rightarrow> (error + string list \<times> (string \<times> error) list) \<times> db" where
  "bulk_approve d reqUser ticket_ids decision reason now =
     (case ticket_ids of
        None \<Rightarrow> (Inl TicketIdsRequired, d)
      | Some ids \<Rightarrow>
          if ids = [] then (Inl TicketIdsRequired, d)
          else if \<not> validDecision decision then (Inl DecisionRequired, d)
          else case bulk_loop reqUser (str decision) reason now ids [] [] d of
            (r, d1) \<Rightarrow> (Inr r, d1))"

section \<open>Assignment\<close>

text \<open>
  \<^verbatim>\<open>router.post('/:id/assign')\<close> of the tickets router. The history entry reads
  \<^verbatim>\<open>ticket.assigned_to\<close> after \<^verbatim>\<open>ticket.update\<close> has stored the new assignee in it.
\<close>

definition assign_ticket ::
  "db \<Rightarrow> user \<Rightarrow> string \<Rightarrow> string option \<Rightarrow> string option \<Rightarrow> (error + unit) \<times> db" where
  "assign_ticket d reqUser i assigned_to notes =
     (if falsy assigned_to then (Inl AssignedUserRequired, d)
      else case findByPk d i of
        None \<Rightarrow> (Inl TicketNotFound, d)
      | Some ticket \<Rightarrow>
          if t_status ticket \<noteq> Approved then (Inl OnlyApprovedAssignable, d)
          else (case findUserByPk d (str assigned_to) of
            None \<Rightarrow> (Inl InvalidAssignee, d)
          | Some assignedUser \<Rightarrow>
              if \<not> supportRole (u_role assignedUser) then (Inl InvalidAssignee, d)
              else
                let d1 = deactivateAssignments d i;
                    d2 = createAssignment d1 i (str assigned_to) (u_id reqUser) notes;
                    d3 = update_ticket d2 (t_id ticket)
                           (\<lambda>t. t\<lparr>t_assigned_to := assigned_to, t_status := InProgress\<rparr>);
                    ticket1 = ticket\<lparr>t_assigned_to := assigned_to, t_status := InProgress\<rparr>;
                    d4 = createTicketHistory d3 (t_id ticket1) (u_id reqUser) Assigned
                           (t_assigned_to ticket1) assigned_to (Some ''assigned_to'') notes;
                    d5 = createNotification d4 (str assigned_to) ''ticket_assigned''
                in (Inr (), d5)))"

text \<open>\<^verbatim>\<open>router.post('/self-assign/:ticketId')\<close> of the assignments router.\<close>

definition maxWorkload :: nat where
  "maxWorkload = 10"

definition self_assign ::
  "db \<Rightarrow> user \<Rightarrow> string \<Rightarrow> string option \<Rightarrow> (error + unit) \<times> db" where
  "self_assign d reqUser ticketId notes =
     (let userId = u_id reqUser in
      case findByPk d ticketId of
        None \<Rightarrow> (Inl TicketNotFound, d)
      | Some ticket \<Rightarrow>
          if t_status ticket \<noteq> Approved then (Inl OnlyApprovedAssignable, d)
          else if \<not> falsy (t_assigned_to ticket) then (Inl AlreadyAssigned, d)
          else if u_role reqUser = SupportStaff \<and> Some (t_factory_id ticket) \<noteq> u_factory_id reqUser
          then (Inl OtherFactory, d)
          else
            let currentWorkload = activeTicketCount d userId in
            if currentWorkload \<ge> maxWorkload then (Inl (WorkloadLimitReached maxWorkload), d)
            else
              let reason = (if falsy notes then Some ''Self-assigned'' else notes);
                  d1 = createAssignment d ticketId userId userId reason;
                  d2 = update_ticket d1 (t_id ticket)
                         (\<lambda>t. t\<lparr>t_assigned_to := Some userId, t_status := InProgress\<rparr>);
                  d3 = createTicketHistory d2 ticketId userId Assigned None (Some userId)
                         (Some ''assigned_to'') reason;
                  d4 = createNotification d3 (t_requester_id ticket) ''ticket_assigned''
              in (Inr (), d4))"

text \<open>\<^verbatim>\<open>router.post('/reassign/:ticketId')\<close>.\<close>

definition reassign_ticket ::
  "db \<Rightarrow> user \<Rightarrow> string \<Rightarrow> string option \<Rightarrow> string option \<Rightarrow> (error + unit) \<times> db" where
  "reassign_ticket d reqUser ticketId assigned_to reason =
     (if falsy assigned_to then (Inl AssignedUserRequired, d)
      else case findByPk d ticketId of
        None \<Rightarrow> (Inl TicketNotFound, d)
      | Some ticket \<Rightarrow>
          if falsy (t_assigned_to ticket) then (Inl NotCurrentlyAssigned, d)
          else (case findUserByPk d (str assigned_to) of
            None \<Rightarrow> (Inl InvalidAssignee, d)
          | Some newAssignee \<Rightarrow>
              if \<not> supportRole (u_role newAssignee) then (Inl InvalidAssignee, d)
              else
                let oldAssignedTo = t_assigned_to ticket;
                    d1 = deactivateAssignments d ticketId;
                    d2 = createAssignment d1 ticketId (str assigned_to) (u_id reqUser) reason;
                    d3 = update_ticket d2 (t_id ticket) (\<lambda>t. t\<lparr>t_assigned_to := assigned_to\<rparr>);
                    d4 = createTicketHistory d3 ticketId (u_id reqUser) Assigned oldAssignedTo
                           assigned_to (Some ''assigned_to'') reason;
                    d5 = (if falsy oldAssignedTo then d4
                          else createNotification d4 (str oldAssignedTo) ''ticket_reassigned'');
                    d6 = createNotification d5 (str assigned_to) ''ticket_assigned''
                in (Inr (), d6)))"

text \<open>\<^verbatim>\<open>router.post('/unassign/:ticketId')\<close>.\<close>

definition unassign_ticket ::
  "db \<Rightarrow> user \<Rightarrow> string \<Rightarrow> string option \<Rightarrow> (error + unit) \<times> db" where
  "unassign_ticket d reqUser ticketId reason =
     (case findByPk d ticketId of
        None \<Rightarrow> (Inl TicketNotFound, d)
      | Some ticket \<Rightarrow>
          if falsy (t_assigned_to ticket) then (Inl NotCurrentlyAssigned, d)
          else
            let oldAssignedTo = t_assigned_to ticket;
                d1 = deactivateAssignments d ticketId;
                d2 = update_ticket d1 (t_id ticket)
                       (\<lambda>t. t\<lparr>t_assigned_to := None, t_status := Approved\<rparr>);
                d3 = createTicketHistory d2 ticketId (u_id reqUser) Assigned oldAssignedTo None
                       (Some ''assigned_to'') reason;
                d4 = createNotification d3 (str oldAssignedTo) ''ticket_unassigned''
            in (Inr (), d4))"

section \<open>Automatic assignment\<close>

text \<open>
  \<^verbatim>\<open>router.post('/auto-assign')\<close>. The query orders the unassigned approved tickets of
  the factory by priority, descending, then by creation time. How the storage layer
  orders the priority column is its own business, so the rank of a priority is a
  parameter. Both sorts are stable, as the sort of the staff by load is.
\<close>

definition unassignedTickets :: "(string \<Rightarrow> int) \<Rightarrow> db \<Rightarrow> string \<Rightarrow> nat \<Rightarrow> ticket list" where
  "unassignedTickets rank d factory_id max_assignments =
     take max_assignments
       (sort_key (\<lambda>t. - rank (t_priority t))
          (sort_key t_created_at
             (filter (\<lambda>t. t_factory_id t = factory_id \<and> t_status t = Approved
                           \<and> t_assigned_to t = None) (tickets d))))"

definition supportStaff :: "db \<Rightarrow> string \<Rightarrow> user list" where
  "supportStaff d factory_id =
     filter (\<lambda>u. u_factory_id u = Some factory_id \<and> supportRole (u_role u) \<and> u_is_active u)
       (users d)"

definition staffWorkload :: "db \<Rightarrow> string \<Rightarrow> (user \<times> nat) list" where
  "staffWorkload d factory_id =
     sort_key snd (map (\<lambda>staff. (staff, activeTicketCount d (u_id staff))) (supportStaff d factory_id))"

text \<open>
  The allocation loop. The accumulator is the \<^verbatim>\<open>assignments\<close> array of the response,
  a pair of ticket and staff identifiers for each allocation.
\<close>

fun auto_assign_loop ::
  "user \<Rightarrow> ticket list \<Rightarrow> (user \<times> nat) list \<Rightarrow> nat \<Rightarrow> (string \<times> string) list \<Rightarrow> db
     \<Rightarrow> (string \<times> string) list \<times> db" where
  "auto_assign_loop reqUser [] workload staffIndex acc d = (acc, d)"
| "auto_assign_loop reqUser (ticket # rest) workload staffIndex acc d =
     (let slot = staffIndex mod length workload;
          assignedStaff = fst (workload ! slot);
          d1 = createAssignment d (t_id ticket) (u_id assignedStaff) (u_id reqUser)
                 (Some ''Auto-assigned based on workload balancing'');
          d2 = update_ticket d1 (t_id ticket)
                 (\<lambda>t. t\<lparr>t_assigned_to := Some (u_id assignedStaff), t_status := InProgress\<rparr>);
          d3 = createTicketHistory d2 (t_id ticket) (u_id reqUser) Assigned None
                 (Some (u_id assignedStaff)) (Some ''assigned_to'')
                 (Some ''Auto-assigned based on workload balancing'');
          d4 = createNotification d3 (u_id assignedStaff) ''ticket_assigned'';
          workload1 = workload[slot := (assignedStaff, Suc (snd (workload ! slot)))]
      in auto_assign_loop reqUser rest workload1 (Suc staffIndex)
           (acc @ [(t_id ticket, u_id assignedStaff)]) d4)"

definition auto_assign ::
  "(string \<Rightarrow> int) \<Rightarrow> db \<Rightarrow> user \<Rightarrow> string option \<Rightarrow> nat option
     \<Rightarrow> (error + (string \<times> string) list) \<times> db" where
  "auto_assign rank d reqUser factory_id max_assignments =
     (let limit = (case max_assignments of None \<Rightarrow> 5 | Some m \<Rightarrow> m) in
      if falsy factory_id then (Inl FactoryIdRequired, d)
      else
        let selected = unassignedTickets rank d (str factory_id) limit in
        if length selected = 0 then (Inr [], d)
        else if length (supportStaff d (str factory_id)) = 0 then (Inl NoSupportStaff, d)
        else case auto_assign_loop reqUser selected (staffWorkload d (str factory_id)) 0 [] d of
          (assigned, d1) \<Rightarrow> (Inr assigned, d1))"

section \<open>Sequences of requests\<close>

text \<open>
  A request to one of the handlers above, with the authenticated user and the inputs the
  handler takes from the request and from its environment; \<open>step\<close> is the state of the
  tables after the handler has answered.
\<close>

datatype request =
    Create zone user create_body string string int
  | UpdateStatus user string "string option" "string option"
  | Approve user string "string option" "string option" int
  | BulkApprove user "string list option" "string option" "string option" int
  | Assign user string "string option" "string option"
  | SelfAssign user string "string option"
  | Reassign user string "string option" "string option"
  | Unassign user string "string option"
  | AutoAssign user "string option" "nat option"

fun step :: "(string \<Rightarrow> int) \<Rightarrow> db \<Rightarrow> request \<Rightarrow> db" where
  "step rank d (Create z u body newId ticketNumber now) =
     snd (create_ticket z d u body newId ticketNumber now)"
| "step rank d (UpdateStatus u i status comment) = snd (update_status d u i status comment)"
| "step rank d (Approve u i decision reason now) = snd (approve_ticket d u i decision reason now)"
| "step rank d (BulkApprove u ids decision reason now) =
     snd (bulk_approve d u ids decision reason now)"
| "step rank d (Assign u i assigned_to notes) = snd (assign_ticket d u i assigned_to notes)"
| "step rank d (SelfAssign u i notes) = snd (self_assign d u i notes)"
| "step rank d (Reassign u i assigned_to reason) = snd (reassign_ticket d u i assigned_to reason)"
| "step rank d (Unassign u i reason) = snd (unassign_ticket d u i reason)"
| "step rank d (AutoAssign u factory_id max_assignments) =
     snd (auto_assign rank d u factory_id max_assignments)"

definition run :: "(string \<Rightarrow> int) \<Rightarrow> db \<Rightarrow> request list \<Rightarrow> db" where
  "run rank d reqs = foldl (step rank) d reqs"

fun isAssignmentRequest :: "request \<Rightarrow> bool" where
  "isAssignmentRequest (Assign u i assigned_to notes) = True"
| "isAssignmentRequest (SelfAssign u i notes) = True"
| "isAssignmentRequest (Reassign u i assigned_to reason) = True"
| "isAssignmentRequest (Unassign u i reason) = True"
| "isAssignmentRequest (AutoAssign u factory_id max_assignments) = True"
| "isAssignmentRequest _ = False"

fun requestUser :: "request \<Rightarrow> user" where
  "requestUser (Create z u body newId ticketNumber now) = u"
| "requestUser (UpdateStatus u i status comment) = u"
| "requestUser (Approve u i decision reason now) = u"
| "requestUser (BulkApprove u ids decision reason now) = u"
| "requestUser (Assign u i assigned_to notes) = u"
| "requestUser (SelfAssign u i notes) = u"
| "requestUser (Reassign u i assigned_to reason) = u"
| "requestUser (Unassign u i reason) = u"
| "requestUser (AutoAssign u factory_id max_assignments) = u"

section \<open>Properties of the tables\<close>

text \<open>The active assignment records of a ticket, and the approval records of a ticket.\<close>

definition activeAssignments :: "db \<Rightarrow> string \<Rightarrow> assignment list" where
  "activeAssignments d ticketId =
     filter (\<lambda>a. a_ticket_id a = ticketId \<and> a_is_active a) (assignments d)"


text \<open>
  The ledger agrees with a ticket: no active record and no assignee, or one active record
  that names the ticket's assignee.
\<close>

definition ledgerAgrees :: "db \<Rightarrow> ticket \<Rightarrow> bool" where
  "ledgerAgrees d t =
     (case activeAssignments d (t_id t) of
        [] \<Rightarrow> t_assigned_to t = None
      | [a] \<Rightarrow> t_assigned_to t = Some (a_assigned_to a)
      | _ \<Rightarrow> False)"

text \<open>
  What the storage layer guarantees of the tables: the primary key of a ticket is
  unique, and an identifier is never the empty string.
\<close>

definition keysValid :: "db \<Rightarrow> bool" where
  "keysValid d =
     (distinct (map t_id (tickets d))
      \<and> list_all (\<lambda>u. u_id u \<noteq> []) (users d)
      \<and> list_all (\<lambda>t. t_assigned_to t \<noteq> Some []) (tickets d))"

definition ledgerInv :: "db \<Rightarrow> bool" where
  "ledgerInv d = (keysValid d \<and> list_all (ledgerAgrees d) (tickets d))"





section \<open>Example tables\<close>

definition adminUser :: user where
  "adminUser = \<lparr>u_id = ''u-admin'', u_role = Admin, u_factory_id = None, u_is_active = True\<rparr>"

definition staffA :: user where
  "staffA = \<lparr>u_id = ''u-a'', u_role = SupportStaff, u_factory_id = Some ''ARDIC'',
             u_is_active = True\<rparr>"

definition staffB :: user where
  "staffB = \<lparr>u_id = ''u-b'', u_role = SupportStaff, u_factory_id = Some ''ARDIC'',
             u_is_active = True\<rparr>"

definition employeeUser :: user where
  "employeeUser = \<lparr>u_id = ''u-e'', u_role = Employee, u_factory_id = Some ''ARDIC'',
                   u_is_active = True\<rparr>"

definition exampleTicket :: "string \<Rightarrow> status \<Rightarrow> ticket" where
  "exampleTicket i st =
     \<lparr>t_id = i, t_ticket_number = ''HIT260101-'' @ i, t_title = ''Lathe stopped'',
      t_description = ''The lathe in hall two stopped'', t_priority = ''high'', t_status = st,
      t_factory_id = ''ARDIC'', t_requester_id = ''u-e'', t_assigned_to = None,
      t_urgency_level = 3, t_sla_deadline = Some 1000, t_created_at = 0,
      t_approved_at = None\<rparr>"

definition exampleDb :: "ticket list \<Rightarrow> db" where
  "exampleDb ts =
     \<lparr>tickets = ts, users = [adminUser, staffA, staffB, employeeUser], factories = [''ARDIC''],
      assignments = [], history = [], approvals = [], notifications = []\<rparr>"

definition criticalBody :: create_body where
  "criticalBody =
     \<lparr>cb_title = Some ''Press jammed'', cb_description = Some ''The press in hall one jammed'',
      cb_priority = Some ''critical'', cb_factory_id = Some ''ARDIC'', cb_urgency_level = None\<rparr>"

definition assignedTicket :: "string \<Rightarrow> status \<Rightarrow> string \<Rightarrow> ticket" where
  "assignedTicket i st userId = (exampleTicket i st)\<lparr>t_assigned_to := Some userId\<rparr>"

definition activeRecord :: "string \<Rightarrow> string \<Rightarrow> assignment" where
  "activeRecord i userId =
     \<lparr>a_ticket_id = i, a_assigned_to = userId, a_assigned_by = ''u-admin'',
      a_assignment_reason = None, a_is_active = True, a_completed_at = None\<rparr>"

text \<open>A factory with one member of staff, who already holds ten tickets in progress.\<close>

definition busyIds :: "string list" where
  "busyIds = [''b0'', ''b1'', ''b2'', ''b3'', ''b4'', ''b5'', ''b6'', ''b7'', ''b8'', ''b9'']"

definition busyDb :: db where
  "busyDb =
     \<lparr>tickets = map (\<lambda>i. assignedTicket i InProgress ''u-a'') busyIds
                 @ [exampleTicket ''n1'' Approved, exampleTicket ''n2'' Approved],
      users = [adminUser, staffA, employeeUser], factories = [''ARDIC''],
      assignments = map (\<lambda>i. activeRecord i ''u-a'') busyIds, history = [], approvals = [],
      notifications = []\<rparr>"

text \<open>Three approved tickets that wait for an assignee, and two members of staff.\<close>

definition waitingDb :: db where
  "waitingDb =
     exampleDb [exampleTicket ''t1'' Approved, exampleTicket ''t2'' Approved,
                exampleTicket ''t3'' Approved]"

text \<open>
  A sequence of assignment requests on the three waiting tickets: the first is assigned
  and reassigned, the second is taken by a member of staff and given back, and what still
  waits is assigned automatically.
\<close>

definition assignmentRequests :: "request list" where
  "assignmentRequests =
     [Assign adminUser ''t1'' (Some ''u-a'') None,
      Reassign adminUser ''t1'' (Some ''u-b'') (Some ''on leave''),
      SelfAssign staffA ''t2'' None,
      Unassign adminUser ''t2'' None,
      AutoAssign adminUser (Some ''ARDIC'') None]"


text \<open>An employee who did not raise the example tickets.\<close>

definition outsiderUser :: user where
  "outsiderUser = \<lparr>u_id = ''u-x'', u_role = Employee, u_factory_id = Some ''ARDIC'',
                   u_is_active = True\<rparr>"

section \<open>Basic facts\<close>

lemma status_of_name_valid:
  "isValidStatusTransition cur s \<Longrightarrow> \<exists>n. status_of_name s = Some n \<and> transition_edge cur n"
  by (cases cur)
     (auto simp: isValidStatusTransition_def status_of_name_def transition_edge_def
        transition_edges_def)

lemma find_map_update:
  "find (\<lambda>t. t_id t = i) ts = Some t \<Longrightarrow> t_id (f t) = i \<Longrightarrow>
   find (\<lambda>t. t_id t = i) (map (\<lambda>t. if t_id t = i then f t else t) ts) = Some (f t)"
  by (induction ts) (auto split: if_splits)

lemma findByPk_id: "findByPk d i = Some t \<Longrightarrow> t_id t = i"
  by (auto simp: findByPk_def find_Some_iff)

lemma findByPk_mem: "findByPk d i = Some t \<Longrightarrow> t \<in> set (tickets d)"
  by (auto simp: findByPk_def find_Some_iff)

lemma createTicketHistory_fields [simp]:
  "tickets (createTicketHistory d a b c e f g h) = tickets d"
  "users (createTicketHistory d a b c e f g h) = users d"
  "assignments (createTicketHistory d a b c e f g h) = assignments d"
  "approvals (createTicketHistory d a b c e f g h) = approvals d"
  "history (createTicketHistory d a b c e f g h) = history d @
     [\<lparr>h_ticket_id = a, h_user_id = b, h_action = c, h_old_value = e, h_new_value = f,
       h_field_name = g, h_comment = h\<rparr>]"
  by (simp_all add: createTicketHistory_def)

lemma createNotification_fields [simp]:
  "tickets (createNotification d a b) = tickets d"
  "users (createNotification d a b) = users d"
  "assignments (createNotification d a b) = assignments d"
  "approvals (createNotification d a b) = approvals d"
  "history (createNotification d a b) = history d"
  by (simp_all add: createNotification_def)

lemma foldl_createNotification_fields:
  "tickets (foldl (\<lambda>acc admin. createNotification acc (u_id admin) ty) d us) = tickets d"
  "users (foldl (\<lambda>acc admin. createNotification acc (u_id admin) ty) d us) = users d"
  "assignments (foldl (\<lambda>acc admin. createNotification acc (u_id admin) ty) d us) = assignments d"
  "approvals (foldl (\<lambda>acc admin. createNotification acc (u_id admin) ty) d us) = approvals d"
  "history (foldl (\<lambda>acc admin. createNotification acc (u_id admin) ty) d us) = history d"
  by (induction us arbitrary: d) simp_all

lemma notifyAdmins_fields [simp]:
  "tickets (notifyAdmins d ty) = tickets d"
  "users (notifyAdmins d ty) = users d"
  "assignments (notifyAdmins d ty) = assignments d"
  "approvals (notifyAdmins d ty) = approvals d"
  "history (notifyAdmins d ty) = history d"
  by (simp_all add: notifyAdmins_def foldl_createNotification_fields)

lemma update_ticket_fields [simp]:
  "tickets (update_ticket d i f) = map (\<lambda>t. if t_id t = i then f t else t) (tickets d)"
  "users (update_ticket d i f) = users d"
  "assignments (update_ticket d i f) = assignments d"
  "approvals (update_ticket d i f) = approvals d"
  "history (update_ticket d i f) = history d"
  by (simp_all add: update_ticket_def)

lemma deactivateAssignments_fields [simp]:
  "tickets (deactivateAssignments d i) = tickets d"
  "users (deactivateAssignments d i) = users d"
  "approvals (deactivateAssignments d i) = approvals d"
  "history (deactivateAssignments d i) = history d"
  by (simp_all add: deactivateAssignments_def)

lemma createAssignment_fields [simp]:
  "tickets (createAssignment d i a b r) = tickets d"
  "users (createAssignment d i a b r) = users d"
  "approvals (createAssignment d i a b r) = approvals d"
  "history (createAssignment d i a b r) = history d"
  by (simp_all add: createAssignment_def)

section \<open>The SLA calculator\<close>

text \<open>
  Writing the hour of the local wall clock, advanced by \<open>h\<close>, back into the date moves
  the local time value by \<open>h\<close> hours; the result is then read as a local time of the
  zone.
\<close>

lemma time_parts:
  "MakeDate (Day t) (MakeTime (HourFromTime t + h) (MinFromTime t) (SecFromTime t) (msFromTime t))
   = t + h * msPerHour"
proof -
  define x1 where "x1 = t div 1000"
  define x2 where "x2 = x1 div 60"
  define x3 where "x3 = x2 div 60"
  define x4 where "x4 = x3 div 24"
  have d2: "t div 60000 = x2"
    using zdiv_zmult2_eq[of 60 t 1000] by (simp add: x1_def x2_def)
  have d3: "t div 3600000 = x3"
    using zdiv_zmult2_eq[of 60 t 60000] by (simp add: d2 x3_def)
  have d4: "t div 86400000 = x4"
    using zdiv_zmult2_eq[of 24 t 3600000] by (simp add: d3 x4_def)
  have m0: "t mod 1000 = t - 1000 * x1" by (simp add: x1_def minus_mult_div_eq_mod)
  have m1: "x1 mod 60 = x1 - 60 * x2" by (simp add: x2_def minus_mult_div_eq_mod)
  have m2: "x2 mod 60 = x2 - 60 * x3" by (simp add: x3_def minus_mult_div_eq_mod)
  have m3: "x3 mod 24 = x3 - 24 * x4" by (simp add: x4_def minus_mult_div_eq_mod)
  show ?thesis
    unfolding MakeDate_def MakeTime_def Day_def HourFromTime_def MinFromTime_def SecFromTime_def
      msFromTime_def msPerDay_def msPerHour_def msPerMinute_def msPerSecond_def
      d2 d3 d4 x1_def[symmetric] m0 m1 m2 m3
    by (simp add: algebra_simps)
qed

lemma setHours_getHours:
  "setHours z t (getHours z t + h) = TimeClip (UTC z (LocalTime z t + h * msPerHour))"
  by (simp add: setHours_def getHours_def Let_def time_parts)

lemma calculateSLADeadline_wall_clock:
  "calculateSLADeadline z priority createdAt =
     (case TimeClip createdAt of
        None \<Rightarrow> None
      | Some t \<Rightarrow> TimeClip (UTC z (LocalTime z t + slaHours priority * msPerHour)))"
  by (simp add: calculateSLADeadline_def slaHours_def addHours_def setHours_getHours Let_def
      split: option.splits)

lemma calculateSLADeadline_fixedZone:
  "calculateSLADeadline (fixedZone c) priority createdAt =
     (if \<bar>createdAt\<bar> > maxTime then None
      else TimeClip (createdAt + slaHours priority * msPerHour))"
  by (simp add: calculateSLADeadline_wall_clock TimeClip_def UTC_def LocalTime_def fixedZone_def)

text \<open>
  C9, as the code has it. \<^verbatim>\<open>calculateSLADeadline\<close> is a function of the priority, the
  creation time and the time zone of the process. For a creation time that stays within
  the range of \<^verbatim>\<open>Date\<close>, it moves the local wall-clock time of the creation forward by
  exactly 2 hours for \<^verbatim>\<open>critical\<close>, 8 for \<^verbatim>\<open>high\<close>, 24 for \<^verbatim>\<open>medium\<close>, 72 for
  \<^verbatim>\<open>low\<close> and 24 for every other priority value, and reads the result in the zone. In a
  zone with one fixed offset from UTC that is the creation time plus exactly as many
  hours.
\<close>

theorem C9_sla_offsets_amended:
  assumes "\<bar>createdAt\<bar> + 72 * 3600000 \<le> maxTime"
  shows "calculateSLADeadline z ''critical'' createdAt
           = TimeClip (UTC z (LocalTime z createdAt + 2 * 3600000))
       \<and> calculateSLADeadline z ''high'' createdAt
           = TimeClip (UTC z (LocalTime z createdAt + 8 * 3600000))
       \<and> calculateSLADeadline z ''medium'' createdAt
           = TimeClip (UTC z (LocalTime z createdAt + 24 * 3600000))
       \<and> calculateSLADeadline z ''low'' createdAt
           = TimeClip (UTC z (LocalTime z createdAt + 72 * 3600000))
       \<and> (priority \<notin> set [''critical'', ''high'', ''medium'', ''low'']
            \<longrightarrow> calculateSLADeadline z priority createdAt
                  = TimeClip (UTC z (LocalTime z createdAt + 24 * 3600000)))
       \<and> calculateSLADeadline (fixedZone c) ''critical'' createdAt = Some (createdAt + 2 * 3600000)
       \<and> calculateSLADeadline (fixedZone c) ''high'' createdAt = Some (createdAt + 8 * 3600000)
       \<and> calculateSLADeadline (fixedZone c) ''medium'' createdAt = Some (createdAt + 24 * 3600000)
       \<and> calculateSLADeadline (fixedZone c) ''low'' createdAt = Some (createdAt + 72 * 3600000)
       \<and> (priority \<notin> set [''critical'', ''high'', ''medium'', ''low'']
            \<longrightarrow> calculateSLADeadline (fixedZone c) priority createdAt
                  = Some (createdAt + 24 * 3600000))"
proof -
  have clip: "TimeClip createdAt = Some createdAt"
    using assms by (simp add: TimeClip_def)
  have wall: "calculateSLADeadline z p createdAt
      = TimeClip (UTC z (LocalTime z createdAt + slaHours p * 3600000))" for z p
    by (simp add: calculateSLADeadline_wall_clock clip msPerHour_def)
  have fixed: "TimeClip (UTC (fixedZone c) (LocalTime (fixedZone c) createdAt + k))
      = Some (createdAt + k)" if "0 \<le> k" "k \<le> 72 * 3600000" for k
    using assms that by (simp add: UTC_def LocalTime_def fixedZone_def TimeClip_def)
  show ?thesis
    by (simp add: wall slaHours_def fixed)
qed

theorem C9_sla_offsets_amended_witness:
  "\<bar>1000\<bar> + 72 * 3600000 \<le> maxTime
   \<and> calculateSLADeadline (fixedZone 18000000) ''critical'' 1000 = Some (1000 + 2 * 3600000)
   \<and> calculateSLADeadline (fixedZone 18000000) ''urgent'' 1000 = Some (1000 + 24 * 3600000)
   \<and> calculateSLADeadline springZone ''low'' 1000
       = TimeClip (UTC springZone (LocalTime springZone 1000 + 72 * 3600000))"
proof -
  have r: "\<bar>1000\<bar> + 72 * 3600000 \<le> maxTime" by (simp add: maxTime_def)
  have p: "''urgent'' \<notin> set [''critical'', ''high'', ''medium'', ''low'']" by simp
  note c = C9_sla_offsets_amended[OF r, of springZone "''urgent''" 18000000]
  from c p r show ?thesis by simp
qed

text \<open>
  C9, as the claim has it, gives the creation time plus exactly 24 hours for
  \<^verbatim>\<open>medium\<close>. In the zone whose clock is moved forward at 2024-03-10T07:00:00Z, a
  creation half an hour before the change gets a deadline 23 hours later.
\<close>

theorem C9_clock_change_23_hours:
  "calculateSLADeadline springZone ''medium'' 1710052200000 = Some (1710052200000 + 23 * 3600000)
   \<and> calculateSLADeadline springZone ''medium'' 1710052200000
       \<noteq> Some (1710052200000 + 24 * 3600000)"
  by (simp add: calculateSLADeadline_wall_clock TimeClip_def UTC_def LocalTime_def springZone_def
      springForward_def slaHours_def msPerHour_def maxTime_def)

section \<open>The overdue test\<close>

text \<open>
  What \<^verbatim>\<open>isOverdue\<close> does: a ticket that is completed or closed, or has no deadline, is
  never overdue; any other ticket is overdue exactly when the clock has passed its
  deadline.
\<close>

lemma isOverdue_completed_closed:
  "t_status t = Completed \<or> t_status t = Closed \<Longrightarrow> \<not> isOverdue t now"
  by (auto simp: isOverdue_def isCompleted_def isClosed_def split: option.splits)

lemma isOverdue_open:
  "t_status t \<noteq> Completed \<Longrightarrow> t_status t \<noteq> Closed \<Longrightarrow> t_sla_deadline t = Some deadline \<Longrightarrow>
   isOverdue t now = (now > deadline)"
  by (simp add: isOverdue_def isCompleted_def isClosed_def)

text \<open>
  C6. A rejected ticket is among the tickets that are never overdue, whatever its
  deadline. \<^verbatim>\<open>isOverdue\<close> does not look for the rejected status: the rejected ticket
  whose deadline was at 1000 is overdue at 2000.
\<close>

theorem C6_rejected_ticket_overdue:
  "t_status (exampleTicket ''t1'' Rejected) = Rejected
   \<and> t_sla_deadline (exampleTicket ''t1'' Rejected) = Some 1000
   \<and> isOverdue (exampleTicket ''t1'' Rejected) 2000"
  by (simp add: isOverdue_def exampleTicket_def isCompleted_def isClosed_def)

section \<open>Ticket creation\<close>

text \<open>
  C3. A ticket created with priority \<^verbatim>\<open>critical\<close> at time \<open>T0\<close> has the status
  \<^verbatim>\<open>pending\<close> and the deadline \<open>T0\<close> plus two hours. The route passes the urgency level
  where \<^verbatim>\<open>calculateSLADeadline\<close> takes the creation time: created at 1700000000000 with
  the default urgency 3, in the zone five hours ahead of UTC, the ticket is pending and
  its deadline is 3 milliseconds plus two hours.
\<close>

theorem C3_create_critical_deadline:
  "(case create_ticket (fixedZone 18000000) (exampleDb []) employeeUser criticalBody ''t1''
          ''HIT2601010002'' 1700000000000 of
      (Inr t, d) \<Rightarrow>
        t_status t = Pending \<and> t_created_at t = 1700000000000
        \<and> t_sla_deadline t = Some (3 + 2 * 3600000)
        \<and> t_sla_deadline t \<noteq> Some (1700000000000 + 2 * 3600000)
        \<and> tickets d = [t]
    | (Inl e, d) \<Rightarrow> False)"
  by (simp add: create_ticket_def exampleDb_def employeeUser_def criticalBody_def falsy_def
      str_def calculateSLADeadline_fixedZone slaHours_def TimeClip_def maxTime_def msPerHour_def
      ticketModelValid_def Let_def)

section \<open>The status update\<close>

lemma update_status_success:
  assumes "findByPk d i = Some ticket"
    and "update_status d reqUser i status comment = (Inr u, d')"
  shows "\<exists>n. status_of_name (str status) = Some n \<and> transition_edge (t_status ticket) n
     \<and> tickets d' = map (\<lambda>t. if t_id t = i then t\<lparr>t_status := n\<rparr> else t) (tickets d)"
  using assms findByPk_id[OF assms(1)]
  by (auto simp: update_status_def Let_def split: if_splits option.splits
      dest!: status_of_name_valid)

lemma update_status_invalid:
  assumes "findByPk d i = Some ticket"
    and "\<not> (\<exists>n. status_of_name (str status) = Some n \<and> transition_edge (t_status ticket) n)"
  shows "update_status d reqUser i status comment
     = (Inl (if falsy status then StatusRequired
             else if \<not> checkTicketAccess ticket reqUser then AccessDenied
             else InvalidStatusTransition (t_status ticket) (str status)), d)"
  using assms status_of_name_valid[of "t_status ticket" "str status"]
  by (auto simp: update_status_def)

text \<open>
  C1, as the code has it. For a ticket of the table and a request to the status update:
  when the update succeeds, the requested status names a status that the transition table
  allows after the ticket's status, the ticket now has that status, and the tickets with
  another identifier are untouched. When the requested status is not one the table allows
  after the ticket's status, the update fails and the tables are the tables it was given.
  The route checks the transition last: the failure is the status-required answer when
  the request carries no status, the access-denied answer when the caller has no access
  to the ticket, and the invalid-transition error in every other case.
\<close>

theorem C1_status_update_amended:
  assumes "findByPk d i = Some ticket"
  shows "(\<forall>d'. update_status d reqUser i status comment = (Inr (), d') \<longrightarrow>
           (\<exists>n t'. status_of_name (str status) = Some n \<and> transition_edge (t_status ticket) n
              \<and> findByPk d' i = Some t' \<and> t_status t' = n
              \<and> list_all2 (\<lambda>t t'. t_id t' = t_id t
                             \<and> (if t_id t = i then t_status t' = n else t' = t))
                   (tickets d) (tickets d')))
       \<and> (\<not> (\<exists>n. status_of_name (str status) = Some n \<and> transition_edge (t_status ticket) n) \<longrightarrow>
            update_status d reqUser i status comment
              = (Inl (if falsy status then StatusRequired
                      else if \<not> checkTicketAccess ticket reqUser then AccessDenied
                      else InvalidStatusTransition (t_status ticket) (str status)), d))"
proof (intro conjI allI impI)
  fix d' assume ok: "update_status d reqUser i status comment = (Inr (), d')"
  from update_status_success[OF assms ok] obtain n where
    n: "status_of_name (str status) = Some n" "transition_edge (t_status ticket) n"
       "tickets d' = map (\<lambda>t. if t_id t = i then t\<lparr>t_status := n\<rparr> else t) (tickets d)"
    by blast
  have f: "findByPk d' i = Some (ticket\<lparr>t_status := n\<rparr>)"
    using assms findByPk_id[OF assms] n(3)
    by (simp add: findByPk_def find_map_update)
  have rows: "list_all2 (\<lambda>t t'. t_id t' = t_id t
                             \<and> (if t_id t = i then t_status t' = n else t' = t))
                   (tickets d) (tickets d')"
    unfolding n(3) by (simp add: list_all2_map2 list_all2_same)
  from n(1,2) f rows
  show "\<exists>n t'. status_of_name (str status) = Some n \<and> transition_edge (t_status ticket) n
              \<and> findByPk d' i = Some t' \<and> t_status t' = n
              \<and> list_all2 (\<lambda>t t'. t_id t' = t_id t
                             \<and> (if t_id t = i then t_status t' = n else t' = t))
                   (tickets d) (tickets d')"
    by (intro exI[of _ n] exI[of _ "ticket\<lparr>t_status := n\<rparr>"]) simp
next
  assume "\<not> (\<exists>n. status_of_name (str status) = Some n \<and> transition_edge (t_status ticket) n)"
  from update_status_invalid[OF assms this]
  show "update_status d reqUser i status comment
              = (Inl (if falsy status then StatusRequired
                      else if \<not> checkTicketAccess ticket reqUser then AccessDenied
                      else InvalidStatusTransition (t_status ticket) (str status)), d)" .
qed

theorem C1_status_update_amended_witness:
  "update_status (exampleDb [exampleTicket ''t1'' Pending]) adminUser ''t1'' (Some ''closed'') None
       = (Inl (InvalidStatusTransition Pending ''closed''), exampleDb [exampleTicket ''t1'' Pending])
   \<and> update_status (exampleDb [exampleTicket ''t1'' Pending]) adminUser ''t1'' None None
       = (Inl StatusRequired, exampleDb [exampleTicket ''t1'' Pending])
   \<and> fst (update_status (exampleDb [exampleTicket ''t1'' Pending]) adminUser ''t1''
              (Some ''admin_review'') None) = Inr ()
   \<and> map t_status (tickets (snd (update_status (exampleDb [exampleTicket ''t1'' Pending])
              adminUser ''t1'' (Some ''admin_review'') None))) = [AdminReview]"
proof -
  let ?d = "exampleDb [exampleTicket ''t1'' Pending]"
  let ?ok = "update_status ?d adminUser ''t1'' (Some ''admin_review'') None"
  have h: "findByPk ?d ''t1'' = Some (exampleTicket ''t1'' Pending)"
    by (simp add: findByPk_def exampleDb_def exampleTicket_def)
  have st: "t_status (exampleTicket ''t1'' Pending) = Pending"
    by (simp add: exampleTicket_def)
  have acc: "checkTicketAccess (exampleTicket ''t1'' Pending) adminUser"
    by (simp add: checkTicketAccess_def adminUser_def)
  have no1: "\<not> (\<exists>n. status_of_name (str (Some ''closed'')) = Some n
               \<and> transition_edge (t_status (exampleTicket ''t1'' Pending)) n)"
    by (simp add: str_def status_of_name_def st transition_edge_def transition_edges_def)
  have no2: "\<not> (\<exists>n. status_of_name (str None) = Some n
               \<and> transition_edge (t_status (exampleTicket ''t1'' Pending)) n)"
    by (simp add: str_def status_of_name_def)
  have f: "fst ?ok = Inr ()"
    by (simp add: update_status_def exampleDb_def exampleTicket_def adminUser_def falsy_def
        str_def findByPk_def checkTicketAccess_def isValidStatusTransition_def status_of_name_def
        Let_def)
  then have run: "?ok = (Inr (), snd ?ok)"
    by (simp add: prod_eq_iff)
  note c1 = C1_status_update_amended [OF h]
  from c1 [where status="Some ''closed''" and reqUser=adminUser and comment=None, THEN conjunct2, rule_format, OF no1]
  have bad: "update_status ?d adminUser ''t1'' (Some ''closed'') None
       = (Inl (InvalidStatusTransition Pending ''closed''), ?d)"
    using acc st by (simp add: falsy_def str_def)
  from c1 [where status=None and reqUser=adminUser and comment=None, THEN conjunct2, rule_format, OF no2]
  have missing: "update_status ?d adminUser ''t1'' None None = (Inl StatusRequired, ?d)"
    by (simp add: falsy_def)
  from c1 [where status="Some ''admin_review''" and reqUser=adminUser and comment=None, THEN conjunct1, rule_format, OF run]
  obtain n t' where n: "status_of_name (str (Some ''admin_review'')) = Some n"
    and rows: "list_all2 (\<lambda>t t'. t_id t' = t_id t
                             \<and> (if t_id t = ''t1'' then t_status t' = n else t' = t))
                   (tickets ?d) (tickets (snd ?ok))"
    by (elim exE conjE)
  have n': "n = AdminReview" using n by (simp add: str_def status_of_name_def)
  have "tickets ?d = [exampleTicket ''t1'' Pending]" by (simp add: exampleDb_def)
  with rows have good: "map t_status (tickets (snd ?ok)) = [AdminReview]"
    by (simp add: list_all2_Cons1 n' exampleTicket_def) (elim exE conjE, simp)
  from bad missing f good show ?thesis by (intro conjI)
qed

text \<open>
  C1, as the claim has it, answers every request for an unreachable status with the
  invalid-transition error. An employee who did not raise the ticket and asks to close a
  pending ticket is answered with access denied.
\<close>

theorem C1_access_checked_first:
  "\<not> isValidStatusTransition (t_status (exampleTicket ''t1'' Pending)) ''closed''
   \<and> update_status (exampleDb [exampleTicket ''t1'' Pending]) outsiderUser ''t1'' (Some ''closed'')
        None
       = (Inl AccessDenied, exampleDb [exampleTicket ''t1'' Pending])"
  by (simp add: update_status_def exampleDb_def exampleTicket_def outsiderUser_def falsy_def
      str_def findByPk_def checkTicketAccess_def isValidStatusTransition_def)

text \<open>
  C4. Every successful status update appends one history entry whose old value is the
  status before the update and whose new value is the status after it. The route reads
  the old value from the ticket after \<^verbatim>\<open>ticket.update\<close>: moving a pending ticket to
  \<^verbatim>\<open>admin_review\<close> appends one entry, and both its values are \<^verbatim>\<open>admin_review\<close>.
\<close>

theorem C4_status_history_old_value:
  "(case update_status (exampleDb [exampleTicket ''t1'' Pending]) adminUser ''t1''
          (Some ''admin_review'') None of
      (Inr u, d) \<Rightarrow>
        map t_status (tickets (exampleDb [exampleTicket ''t1'' Pending])) = [Pending]
        \<and> map t_status (tickets d) = [AdminReview]
        \<and> map (\<lambda>h. (h_action h, h_field_name h, h_old_value h, h_new_value h)) (history d)
            = [(StatusChanged, Some ''status'', Some ''admin_review'', Some ''admin_review'')]
    | (Inl e, d) \<Rightarrow> False)"
  by (simp add: update_status_def exampleDb_def exampleTicket_def adminUser_def falsy_def
      str_def findByPk_def checkTicketAccess_def isValidStatusTransition_def status_of_name_def
      update_ticket_def createTicketHistory_def notifyAdmins_def createNotification_def Let_def)

section \<open>The approval decision\<close>

lemma validDecision_cases:
  "validDecision decision \<Longrightarrow> decision = Some ''approved'' \<or> decision = Some ''rejected''"
  by (cases decision) (auto simp: validDecision_def falsy_def str_def)

lemma findByPk_update:
  assumes "findByPk d i = Some t"
    and "tickets d' = map (\<lambda>t. if t_id t = i then f t else t) (tickets d)"
    and "t_id (f t) = i"
  shows "findByPk d' i = Some (f t)"
  using assms by (simp add: findByPk_def find_map_update)

lemma decide_one_rejects:
  "findByPk d i = Some ticket \<Longrightarrow> t_status ticket \<noteq> AdminReview \<Longrightarrow>
   decide_one d reqUser i dec reason now = (Inl NotInAdminReview, d)"
  by (simp add: decide_one_def)

lemma decide_one_accepts:
  assumes "findByPk d i = Some ticket" and "t_status ticket = AdminReview"
    and "status_of_name dec = Some n"
  shows "\<exists>d'. decide_one d reqUser i dec reason now = (Inr (), d')
     \<and> tickets d' = map (\<lambda>t. if t_id t = i then t\<lparr>t_status := n\<rparr> else t) (tickets d)
     \<and> users d' = users d
     \<and> assignments d' = assignments d
     \<and> approvals d' = approvals d @
          [\<lparr>ap_ticket_id = i, ap_admin_id = u_id reqUser,
            ap_decision = (if dec = ''approved'' then DecisionApproved else DecisionRejected),
            ap_reason = reason, ap_decided_at = Some now\<rparr>]
     \<and> history d' = history d @
          [\<lparr>h_ticket_id = i, h_user_id = u_id reqUser,
            h_action = (if dec = ''approved'' then ApprovedAction else RejectedAction),
            h_old_value = Some ''admin_review'', h_new_value = Some dec,
            h_field_name = Some ''status'', h_comment = reason\<rparr>]"
  using assms findByPk_id[OF assms(1)]
  by (simp add: decide_one_def Let_def)

text \<open>
  C5, as the code has it. The approval first refuses, with the decision-required answer,
  a decision that is not \<^verbatim>\<open>approved\<close> or \<^verbatim>\<open>rejected\<close>. For a ticket of the table and
  a decision that is one of the two, it fails with the not-in-review error and changes
  nothing when the ticket's status is not \<^verbatim>\<open>admin_review\<close>. Otherwise it succeeds: the
  ticket takes the decision as its status; its \<^verbatim>\<open>approved_at\<close> is not stamped and stays
  as it was, also when the decision is \<^verbatim>\<open>approved\<close>; one approval record is appended,
  with the decision and with \<^verbatim>\<open>decided_at\<close> set to the time of the decision; and one
  history entry is appended, of action approved or rejected, from \<^verbatim>\<open>admin_review\<close> to
  the decision.
\<close>

theorem C5_decide_amended:
  assumes "findByPk d i = Some ticket"
  shows "(\<not> validDecision decision \<longrightarrow>
            approve_ticket d reqUser i decision reason now = (Inl DecisionRequired, d))
       \<and> (validDecision decision \<and> t_status ticket \<noteq> AdminReview \<longrightarrow>
            approve_ticket d reqUser i decision reason now = (Inl NotInAdminReview, d))
       \<and> (validDecision decision \<and> t_status ticket = AdminReview \<longrightarrow>
            (\<exists>d' t'. approve_ticket d reqUser i decision reason now = (Inr (), d')
               \<and> findByPk d' i = Some t'
               \<and> t_status t' = (if decision = Some ''approved'' then Approved else Rejected)
               \<and> t_approved_at t' = t_approved_at ticket
               \<and> approvals d' = approvals d @
                    [\<lparr>ap_ticket_id = i, ap_admin_id = u_id reqUser,
                      ap_decision = (if decision = Some ''approved'' then DecisionApproved
                                     else DecisionRejected),
                      ap_reason = reason, ap_decided_at = Some now\<rparr>]
               \<and> history d' = history d @
                    [\<lparr>h_ticket_id = i, h_user_id = u_id reqUser,
                      h_action = (if decision = Some ''approved'' then ApprovedAction
                                  else RejectedAction),
                      h_old_value = Some ''admin_review'', h_new_value = decision,
                      h_field_name = Some ''status'', h_comment = reason\<rparr>]))"
proof (intro conjI impI)
  assume "\<not> validDecision decision"
  then show "approve_ticket d reqUser i decision reason now = (Inl DecisionRequired, d)"
    by (simp add: approve_ticket_def)
next
  assume a: "validDecision decision \<and> t_status ticket \<noteq> AdminReview"
  then show "approve_ticket d reqUser i decision reason now = (Inl NotInAdminReview, d)"
    using decide_one_rejects[OF assms] by (simp add: approve_ticket_def)
next
  assume a: "validDecision decision \<and> t_status ticket = AdminReview"
  then have v: "validDecision decision" and st: "t_status ticket = AdminReview" by simp_all
  from validDecision_cases[OF v] obtain dec where
    dec: "decision = Some dec" "dec = ''approved'' \<or> dec = ''rejected''"
    by blast
  define n where "n = (if decision = Some ''approved'' then Approved else Rejected)"
  have n: "status_of_name dec = Some n"
    using dec by (auto simp: n_def status_of_name_def)
  have ap: "approve_ticket d reqUser i decision reason now = decide_one d reqUser i dec reason now"
    using v dec(1) by (simp add: approve_ticket_def str_def)
  have eq: "(dec = ''approved'') = (decision = Some ''approved'')"
    using dec(1) by simp
  from decide_one_accepts[OF assms st n, of reqUser reason now] obtain d' where
    d': "decide_one d reqUser i dec reason now = (Inr (), d')"
      "tickets d' = map (\<lambda>t. if t_id t = i then t\<lparr>t_status := n\<rparr> else t) (tickets d)"
      "approvals d' = approvals d @
        [\<lparr>ap_ticket_id = i, ap_admin_id = u_id reqUser,
          ap_decision = (if dec = ''approved'' then DecisionApproved else DecisionRejected),
          ap_reason = reason, ap_decided_at = Some now\<rparr>]"
      "history d' = history d @
        [\<lparr>h_ticket_id = i, h_user_id = u_id reqUser,
          h_action = (if dec = ''approved'' then ApprovedAction else RejectedAction),
          h_old_value = Some ''admin_review'', h_new_value = Some dec,
          h_field_name = Some ''status'', h_comment = reason\<rparr>]"
    by blast
  have f: "findByPk d' i = Some (ticket\<lparr>t_status := n\<rparr>)"
    using findByPk_update[OF assms d'(2)] findByPk_id[OF assms] by simp
  show "\<exists>d' t'. approve_ticket d reqUser i decision reason now = (Inr (), d')
               \<and> findByPk d' i = Some t'
               \<and> t_status t' = (if decision = Some ''approved'' then Approved else Rejected)
               \<and> t_approved_at t' = t_approved_at ticket
               \<and> approvals d' = approvals d @
                    [\<lparr>ap_ticket_id = i, ap_admin_id = u_id reqUser,
                      ap_decision = (if decision = Some ''approved'' then DecisionApproved
                                     else DecisionRejected),
                      ap_reason = reason, ap_decided_at = Some now\<rparr>]
               \<and> history d' = history d @
                    [\<lparr>h_ticket_id = i, h_user_id = u_id reqUser,
                      h_action = (if decision = Some ''approved'' then ApprovedAction
                                  else RejectedAction),
                      h_old_value = Some ''admin_review'', h_new_value = decision,
                      h_field_name = Some ''status'', h_comment = reason\<rparr>]"
    apply (rule exI[of _ d'])
    apply (rule exI[of _ "ticket\<lparr>t_status := n\<rparr>"])
    using ap d'(1) f d'(3) d'(4) unfolding n_def eq dec(1) by simp
qed

theorem C5_decide_amended_witness:
  "approve_ticket (exampleDb [exampleTicket ''t1'' Pending]) adminUser ''t1'' (Some ''maybe'')
        None 5000 = (Inl DecisionRequired, exampleDb [exampleTicket ''t1'' Pending])
   \<and> approve_ticket (exampleDb [exampleTicket ''t1'' Pending]) adminUser ''t1'' (Some ''approved'')
        None 5000 = (Inl NotInAdminReview, exampleDb [exampleTicket ''t1'' Pending])
   \<and> fst (approve_ticket (exampleDb [exampleTicket ''t2'' AdminReview]) adminUser ''t2''
              (Some ''approved'') None 5000) = Inr ()
   \<and> map (\<lambda>p. (ap_ticket_id p, ap_decision p, ap_decided_at p))
        (approvals (snd (approve_ticket (exampleDb [exampleTicket ''t2'' AdminReview]) adminUser
           ''t2'' (Some ''approved'') None 5000)))
       = [(''t2'', DecisionApproved, Some 5000)]"
proof -
  let ?d1 = "exampleDb [exampleTicket ''t1'' Pending]"
  let ?d2 = "exampleDb [exampleTicket ''t2'' AdminReview]"
  let ?ok = "approve_ticket ?d2 adminUser ''t2'' (Some ''approved'') None 5000"
  have h1: "findByPk ?d1 ''t1'' = Some (exampleTicket ''t1'' Pending)"
    by (simp add: findByPk_def exampleDb_def exampleTicket_def)
  have h2: "findByPk ?d2 ''t2'' = Some (exampleTicket ''t2'' AdminReview)"
    by (simp add: findByPk_def exampleDb_def exampleTicket_def)
  have v: "validDecision (Some ''approved'')"
    and nv: "\<not> validDecision (Some ''maybe'')"
    by (simp_all add: validDecision_def falsy_def str_def)
  have s1: "t_status (exampleTicket ''t1'' Pending) \<noteq> AdminReview"
    and s2: "t_status (exampleTicket ''t2'' AdminReview) = AdminReview"
    and ap: "approvals ?d2 = []"
    by (simp_all add: exampleTicket_def exampleDb_def)
  from C5_decide_amended [OF h1, where decision="Some ''maybe''" and reqUser=adminUser
      and reason=None and now=5000, THEN conjunct1, rule_format, OF nv]
  have a0: "approve_ticket ?d1 adminUser ''t1'' (Some ''maybe'') None 5000
      = (Inl DecisionRequired, ?d1)" .
  from C5_decide_amended [OF h1, where decision="Some ''approved''" and reqUser=adminUser
      and reason=None and now=5000, THEN conjunct2, THEN conjunct1, rule_format, OF conjI[OF v s1]]
  have a1: "approve_ticket ?d1 adminUser ''t1'' (Some ''approved'') None 5000
      = (Inl NotInAdminReview, ?d1)" .
  note c = C5_decide_amended [OF h2, where decision="Some ''approved''" and reqUser=adminUser
      and reason=None and now=5000, THEN conjunct2, THEN conjunct2, rule_format, OF conjI[OF v s2]]
  from c obtain d' t' where r: "?ok = (Inr (), d')"
    and a: "approvals d' = approvals ?d2 @
                    [\<lparr>ap_ticket_id = ''t2'', ap_admin_id = u_id adminUser,
                      ap_decision = (if Some ''approved'' = Some ''approved'' then DecisionApproved
                                     else DecisionRejected),
                      ap_reason = None, ap_decided_at = Some 5000\<rparr>]"
    by (elim exE conjE)
  have f: "fst ?ok = Inr ()" by (simp add: r)
  have "map (\<lambda>p. (ap_ticket_id p, ap_decision p, ap_decided_at p)) (approvals (snd ?ok))
       = [(''t2'', DecisionApproved, Some 5000)]"
    by (simp add: r a ap)
  with a0 a1 f show ?thesis by (intro conjI)
qed

text \<open>
  C5, as the claim has it, asks for \<^verbatim>\<open>approved_at\<close> to be stamped on approval. The
  approval of a ticket in review at time 5000 leaves \<^verbatim>\<open>approved_at\<close> empty.
\<close>

theorem C5_approved_at_not_stamped:
  "(case approve_ticket (exampleDb [exampleTicket ''t1'' AdminReview]) adminUser ''t1''
          (Some ''approved'') None 5000 of
      (Inr u, d) \<Rightarrow>
        map t_status (tickets d) = [Approved] \<and> map t_approved_at (tickets d) = [None]
        \<and> map ap_decided_at (approvals d) = [Some 5000]
    | (Inl e, d) \<Rightarrow> False)"
  by (simp add: approve_ticket_def decide_one_def validDecision_def exampleDb_def
      exampleTicket_def adminUser_def falsy_def str_def findByPk_def status_of_name_def Let_def)

section \<open>The allocation of a batch\<close>

lemma map_fst_bump:
  "slot < length w \<Longrightarrow> map fst (w[slot := (fst (w ! slot), c)]) = map fst w"
  by (simp add: map_update list_update_same_conv)

lemma auto_assign_loop_alloc:
  assumes "w \<noteq> []"
  shows "fst (auto_assign_loop reqUser ts w k acc d)
     = acc @ map (\<lambda>(j, t). (t_id t, u_id (map fst w ! (j mod length w)))) (zip [k..<k + length ts] ts)"
  using assms
proof (induction ts arbitrary: w k acc d)
  case Nil
  then show ?case by simp
next
  case (Cons t ts)
  let ?slot = "k mod length w"
  let ?w1 = "w[?slot := (fst (w ! ?slot), Suc (snd (w ! ?slot)))]"
  have sl: "?slot < length w" using Cons.prems by simp
  have m: "map fst ?w1 = map fst w" using sl by (rule map_fst_bump)
  have ne: "?w1 \<noteq> []" using Cons.prems by simp
  have up: "[k..<Suc (k + length ts)] = k # [Suc k..<Suc (k + length ts)]"
    by (rule upt_conv_Cons) simp
  show ?case
    using sl by (simp add: Let_def Cons.IH[OF ne] m up del: upt_Suc)
qed




lemma map_snd_zip_alloc:
  "length js = length ts \<Longrightarrow>
   map snd (map (\<lambda>(j, t). (f t, g j)) (zip js ts)) = map g js"
  by (induction js ts rule: list_induct2) simp_all

lemma map_fst_zip_alloc:
  "length js = length ts \<Longrightarrow>
   map fst (map (\<lambda>(j, t). (f t, g j)) (zip js ts)) = map f ts"
  by (induction js ts rule: list_induct2) simp_all



lemma staffWorkload_length [simp]: "length (staffWorkload d f) = length (supportStaff d f)"
  by (simp add: staffWorkload_def)

lemma staffWorkload_set: "set (map fst (staffWorkload d f)) = set (supportStaff d f)"
  by (auto simp: staffWorkload_def image_iff)


lemma auto_assign_result:
  assumes "\<not> falsy factory_id" and "supportStaff d (str factory_id) \<noteq> []"
  shows "fst (auto_assign rank d reqUser factory_id max_assignments)
    = Inr (map (\<lambda>(j, t). (t_id t,
              u_id (map fst (staffWorkload d (str factory_id))
                      ! (j mod length (supportStaff d (str factory_id))))))
         (zip [0..<length (unassignedTickets rank d (str factory_id)
                            (case max_assignments of None \<Rightarrow> 5 | Some m \<Rightarrow> m))]
              (unassignedTickets rank d (str factory_id)
                 (case max_assignments of None \<Rightarrow> 5 | Some m \<Rightarrow> m))))"
proof -
  have ne: "staffWorkload d (str factory_id) \<noteq> []"
    using assms(2) staffWorkload_length[of d "str factory_id"] by (metis length_0_conv)
  show ?thesis
    using assms auto_assign_loop_alloc[OF ne, of reqUser _ 0 "[]" d]
    by (simp add: auto_assign_def Let_def case_prod_beta)
qed

lemma auto_assign_no_capacity_error:
  "fst (auto_assign rank d reqUser factory_id max_assignments) \<noteq> Inl (WorkloadLimitReached n)"
  by (simp add: auto_assign_def Let_def case_prod_beta)


lemma workload_ids_bump:
  "slot < length w \<Longrightarrow>
   set (map (\<lambda>p. u_id (fst p)) (w[slot := (fst (w ! slot), c)])) = set (map (\<lambda>p. u_id (fst p)) w)"
  using map_fst_bump[of slot w c] by (metis (no_types, lifting) list.map_comp comp_def map_eq_conv)

lemma auto_assign_loop_rows:
  assumes "w \<noteq> []"
  shows "list_all2 (\<lambda>r r'. t_id r' = t_id r
            \<and> (if t_id r \<in> set (map t_id ts)
                then t_status r' = InProgress
                     \<and> (\<exists>sid \<in> set (map (\<lambda>p. u_id (fst p)) w). t_assigned_to r' = Some sid)
                else r' = r))
          (tickets d) (tickets (snd (auto_assign_loop reqUser ts w k acc d)))"
  using assms
proof (induction ts arbitrary: w k acc d)
  case Nil
  then show ?case by (simp add: list_all2_same)
next
  case (Cons t ts)
  let ?slot = "k mod length w"
  let ?w1 = "w[?slot := (fst (w ! ?slot), Suc (snd (w ! ?slot)))]"
  let ?sid = "u_id (fst (w ! ?slot))"
  let ?upd = "\<lambda>r. if t_id r = t_id t then r\<lparr>t_assigned_to := Some ?sid, t_status := InProgress\<rparr> else r"
  let ?d4 = "createNotification
      (createTicketHistory
        (update_ticket
          (createAssignment d (t_id t) ?sid (u_id reqUser)
             (Some ''Auto-assigned based on workload balancing''))
          (t_id t) (\<lambda>t. t\<lparr>t_assigned_to := Some ?sid, t_status := InProgress\<rparr>))
        (t_id t) (u_id reqUser) Assigned None (Some ?sid) (Some ''assigned_to'')
        (Some ''Auto-assigned based on workload balancing''))
      ?sid ''ticket_assigned''"
  have sl: "?slot < length w" using Cons.prems by simp
  have ne: "?w1 \<noteq> []" using Cons.prems by simp
  have ids: "set (map (\<lambda>p. u_id (fst p)) ?w1) = set (map (\<lambda>p. u_id (fst p)) w)"
    using sl by (rule workload_ids_bump)
  have mem: "?sid \<in> set (map (\<lambda>p. u_id (fst p)) w)"
    using sl by (simp add: image_iff) (metis nth_mem)
  have rows: "tickets ?d4 = map ?upd (tickets d)" by simp
  have step: "auto_assign_loop reqUser (t # ts) w k acc d
      = auto_assign_loop reqUser ts ?w1 (Suc k) (acc @ [(t_id t, ?sid)]) ?d4"
    by (simp add: Let_def)
  from Cons.IH[OF ne, of ?d4 "Suc k" "acc @ [(t_id t, ?sid)]"]
  have ih: "list_all2 (\<lambda>r r'. t_id r' = t_id (?upd r)
            \<and> (if t_id (?upd r) \<in> set (map t_id ts)
                then t_status r' = InProgress
                     \<and> (\<exists>sid \<in> set (map (\<lambda>p. u_id (fst p)) w). t_assigned_to r' = Some sid)
                else r' = ?upd r))
          (tickets d) (tickets (snd (auto_assign_loop reqUser (t # ts) w k acc d)))"
    unfolding step rows ids list_all2_map1 .
  show ?case
    by (rule list_all2_mono[OF ih]) (use mem in \<open>auto split: if_splits\<close>)
qed

lemmas eval_defs = auto_assign_def unassignedTickets_def supportStaff_def staffWorkload_def
  activeTicketCount_def supportRole_def falsy_def str_def Let_def
  createAssignment_def update_ticket_def createTicketHistory_def createNotification_def
  exampleDb_def exampleTicket_def adminUser_def staffA_def staffB_def employeeUser_def

lemmas busy_defs = busyDb_def busyIds_def assignedTicket_def activeRecord_def

lemma auto_assign_rows:
  assumes "\<not> falsy factory_id" and "supportStaff d (str factory_id) \<noteq> []"
  shows "list_all2 (\<lambda>r r'. t_id r' = t_id r
            \<and> (if t_id r \<in> set (map t_id (unassignedTickets rank d (str factory_id)
                                (case max_assignments of None \<Rightarrow> 5 | Some m \<Rightarrow> m)))
                then t_status r' = InProgress
                     \<and> (\<exists>sid \<in> set (map u_id (supportStaff d (str factory_id))).
                           t_assigned_to r' = Some sid)
                else r' = r))
          (tickets d) (tickets (snd (auto_assign rank d reqUser factory_id max_assignments)))"
proof -
  let ?f = "str factory_id"
  let ?sel = "unassignedTickets rank d ?f (case max_assignments of None \<Rightarrow> 5 | Some m \<Rightarrow> m)"
  have ne: "staffWorkload d ?f \<noteq> []"
    using assms(2) staffWorkload_length[of d ?f] by (metis length_0_conv)
  have ids: "set (map (\<lambda>p. u_id (fst p)) (staffWorkload d ?f)) = set (map u_id (supportStaff d ?f))"
    using staffWorkload_set[of d ?f] by (simp add: image_image[symmetric])
  show ?thesis
  proof (cases "?sel = []")
    case True
    then show ?thesis using assms by (simp add: auto_assign_def Let_def list_all2_same)
  next
    case False
    then have "snd (auto_assign rank d reqUser factory_id max_assignments)
        = snd (auto_assign_loop reqUser ?sel (staffWorkload d ?f) 0 [] d)"
      using assms by (simp add: auto_assign_def Let_def case_prod_beta)
    then show ?thesis
      using auto_assign_loop_rows[OF ne, where d=d and ts="?sel" and reqUser=reqUser and k=0 and acc="[]"]
      unfolding ids by simp
  qed
qed




text \<open>
  C10. Automatic assignment has no limit per member of staff. When the factory has
  eligible staff, the request succeeds; every ticket the query selected is allocated, in
  order, to an eligible member of staff, is in progress afterwards and carries that
  member as its assignee, with no look at the member's count of active tickets; when
  there is exactly one eligible member, every allocation of the batch goes to that
  member. The request never answers with the workload-limit error of self-assignment.
\<close>

theorem C10_auto_assign_no_capacity_limit:
  assumes "\<not> falsy factory_id" and "supportStaff d (str factory_id) \<noteq> []"
  shows "\<exists>assigned d'. auto_assign rank d reqUser factory_id max_assignments = (Inr assigned, d')
      \<and> map fst assigned = map t_id (unassignedTickets rank d (str factory_id)
                                (case max_assignments of None \<Rightarrow> 5 | Some m \<Rightarrow> m))
      \<and> set (map snd assigned) \<subseteq> set (map u_id (supportStaff d (str factory_id)))
      \<and> list_all2 (\<lambda>r r'. t_id r' = t_id r
            \<and> (if t_id r \<in> set (map t_id (unassignedTickets rank d (str factory_id)
                                (case max_assignments of None \<Rightarrow> 5 | Some m \<Rightarrow> m)))
                then t_status r' = InProgress
                     \<and> (\<exists>sid \<in> set (map u_id (supportStaff d (str factory_id))).
                           t_assigned_to r' = Some sid)
                else r' = r))
          (tickets d) (tickets d')
      \<and> (\<forall>s. supportStaff d (str factory_id) = [s] \<longrightarrow>
            map snd assigned = replicate (length assigned) (u_id s))
      \<and> (\<forall>n. fst (auto_assign rank d reqUser factory_id max_assignments)
              \<noteq> Inl (WorkloadLimitReached n))"
proof -
  let ?f = "str factory_id"
  let ?sel = "unassignedTickets rank d ?f (case max_assignments of None \<Rightarrow> 5 | Some m \<Rightarrow> m)"
  let ?res = "auto_assign rank d reqUser factory_id max_assignments"
  let ?w = "staffWorkload d ?f"
  define assigned where "assigned = map (\<lambda>(j, t). (t_id t,
              u_id (map fst ?w ! (j mod length (supportStaff d ?f)))))
         (zip [0..<length ?sel] ?sel)"
  have r: "?res = (Inr assigned, snd ?res)"
    using auto_assign_result[OF assms, of rank reqUser max_assignments]
    by (simp add: assigned_def prod_eq_iff)
  have f: "map fst assigned = map t_id ?sel"
    unfolding assigned_def by (rule map_fst_zip_alloc) simp
  have sn: "map snd assigned
      = map (\<lambda>j. u_id (map fst ?w ! (j mod length (supportStaff d ?f)))) [0..<length ?sel]"
    unfolding assigned_def by (rule map_snd_zip_alloc) simp
  have sub: "set (map snd assigned) \<subseteq> set (map u_id (supportStaff d ?f))"
  proof -
    have "map fst ?w ! (j mod length (supportStaff d ?f)) \<in> set (supportStaff d ?f)" for j
    proof -
      have "j mod length (supportStaff d ?f) < length (map fst ?w)" using assms(2) by simp
      from nth_mem[OF this] show ?thesis unfolding staffWorkload_set .
    qed
    then show ?thesis unfolding sn by auto
  qed
  have one: "map snd assigned = replicate (length assigned) (u_id s)"
    if "supportStaff d ?f = [s]" for s
  proof -
    have "set (map snd assigned) \<subseteq> {u_id s}" using sub that by simp
    then have "\<forall>x \<in> set (map snd assigned). x = u_id s" by auto
    then have "map snd assigned = replicate (length (map snd assigned)) (u_id s)"
      by (intro replicate_eqI) auto
    then show ?thesis by simp
  qed
  have nc: "fst ?res \<noteq> Inl (WorkloadLimitReached n)" for n
    by (rule auto_assign_no_capacity_error)
  from r f sub auto_assign_rows[OF assms, where rank=rank and max_assignments=max_assignments
      and reqUser=reqUser] one nc
  show ?thesis by blast
qed

theorem C10_auto_assign_no_capacity_limit_witness:
  "\<not> falsy (Some ''ARDIC'') \<and> supportStaff busyDb ''ARDIC'' = [staffA]
   \<and> activeTicketCount busyDb (u_id staffA) = 10
   \<and> self_assign busyDb staffA ''n1'' None = (Inl (WorkloadLimitReached 10), busyDb)
   \<and> fst (auto_assign (\<lambda>p. 0) busyDb adminUser (Some ''ARDIC'') None)
       = Inr [(''n1'', ''u-a''), (''n2'', ''u-a'')]"
proof -
  let ?res = "auto_assign (\<lambda>p. 0) busyDb adminUser (Some ''ARDIC'') None"
  have nf: "\<not> falsy (Some ''ARDIC'')" by (simp add: falsy_def)
  have staff: "supportStaff busyDb (str (Some ''ARDIC'')) = [staffA]"
    by (simp add: busy_defs eval_defs)
  have ne: "supportStaff busyDb (str (Some ''ARDIC'')) \<noteq> []"
    by (simp add: staff)
  have sel: "map t_id (unassignedTickets (\<lambda>p. 0) busyDb (str (Some ''ARDIC''))
      (case None of None \<Rightarrow> 5 | Some m \<Rightarrow> m)) = [''n1'', ''n2'']"
    by (simp add: busy_defs eval_defs)
  have cnt: "activeTicketCount busyDb (u_id staffA) = 10"
    by (simp add: busy_defs eval_defs)
  have self: "self_assign busyDb staffA ''n1'' None = (Inl (WorkloadLimitReached 10), busyDb)"
    by (simp add: self_assign_def findByPk_def maxWorkload_def busy_defs eval_defs
        eval_nat_numeral)
  from C10_auto_assign_no_capacity_limit[OF nf ne, of "\<lambda>p. 0" adminUser None]
  obtain assigned d' where r: "?res = (Inr assigned, d')"
    and f: "map fst assigned = map t_id (unassignedTickets (\<lambda>p. 0) busyDb (str (Some ''ARDIC''))
      (case None of None \<Rightarrow> 5 | Some m \<Rightarrow> m))"
    and one: "\<forall>s. supportStaff busyDb (str (Some ''ARDIC'')) = [s] \<longrightarrow>
            map snd assigned = replicate (length assigned) (u_id s)"
    by (elim exE conjE)
  have len: "length assigned = 2"
    using arg_cong[OF f[unfolded sel], of length] by simp
  from one staff have "map snd assigned = replicate (length assigned) (u_id staffA)"
    by simp
  then have s: "map snd assigned = [''u-a'', ''u-a'']"
    by (simp add: len staffA_def numeral_2_eq_2)
  have "assigned = zip (map fst assigned) (map snd assigned)"
    by (simp add: zip_map_fst_snd)
  then have "assigned = [(''n1'', ''u-a''), (''n2'', ''u-a'')]"
    unfolding s f sel by simp
  with r have "fst ?res = Inr [(''n1'', ''u-a''), (''n2'', ''u-a'')]" by simp
  with nf staff cnt self show ?thesis by (simp add: str_def)
qed

section \<open>The assignment ledger\<close>

lemma filter_active_deactivated:
  "filter (\<lambda>a. a_ticket_id a = j \<and> a_is_active a)
     (map (\<lambda>a. if a_ticket_id a = i \<and> a_is_active a then a\<lparr>a_is_active := False\<rparr> else a) xs)
   = (if j = i then [] else filter (\<lambda>a. a_ticket_id a = j \<and> a_is_active a) xs)"
  by (induction xs) auto

lemma activeAssignments_deactivate:
  "activeAssignments (deactivateAssignments d i) j = (if j = i then [] else activeAssignments d j)"
  by (simp add: activeAssignments_def deactivateAssignments_def filter_active_deactivated)

lemma activeAssignments_create:
  "activeAssignments (createAssignment d i a b r) j
   = activeAssignments d j @
     (if j = i then [\<lparr>a_ticket_id = i, a_assigned_to = a, a_assigned_by = b,
                       a_assignment_reason = r, a_is_active = True, a_completed_at = None\<rparr>]
      else [])"
  by (simp add: activeAssignments_def createAssignment_def)

lemma activeAssignments_eq:
  "assignments d' = assignments d \<Longrightarrow> activeAssignments d' j = activeAssignments d j"
  by (simp add: activeAssignments_def)

lemma ledgerAgrees_eq:
  "activeAssignments d' (t_id t) = activeAssignments d (t_id t) \<Longrightarrow>
   ledgerAgrees d' t = ledgerAgrees d t"
  by (simp add: ledgerAgrees_def)

lemma ledgerAgrees_none:
  "ledgerAgrees d t \<Longrightarrow> t_assigned_to t = None \<Longrightarrow> activeAssignments d (t_id t) = []"
  by (auto simp: ledgerAgrees_def split: list.splits)

lemma ledgerAgrees_single:
  "activeAssignments d (t_id t) = [a] \<Longrightarrow> t_assigned_to t = Some (a_assigned_to a) \<Longrightarrow>
   ledgerAgrees d t"
  by (simp add: ledgerAgrees_def)

lemma ledgerAgrees_empty:
  "activeAssignments d (t_id t) = [] \<Longrightarrow> t_assigned_to t = None \<Longrightarrow> ledgerAgrees d t"
  by (simp add: ledgerAgrees_def)

lemma ledger_step:
  assumes inv: "ledgerInv d"
    and us: "users d' = users d"
    and rows: "tickets d' = map (\<lambda>t. if t_id t = i then f t else t) (tickets d)"
    and ident: "\<And>t. t_id (f t) = t_id t"
    and other: "\<And>j. j \<noteq> i \<Longrightarrow> activeAssignments d' j = activeAssignments d j"
    and same: "\<And>t. t \<in> set (tickets d) \<Longrightarrow> t_id t = i \<Longrightarrow>
                 ledgerAgrees d' (f t) \<and> t_assigned_to (f t) \<noteq> Some []"
  shows "ledgerInv d'"
proof -
  have ids: "map t_id (tickets d') = map t_id (tickets d)"
    unfolding rows by (simp add: ident)
  have k: "keysValid d" and a: "\<And>t. t \<in> set (tickets d) \<Longrightarrow> ledgerAgrees d t"
    using inv by (simp_all add: ledgerInv_def list_all_iff)
  have ne: "\<And>t. t \<in> set (tickets d) \<Longrightarrow> t_assigned_to t \<noteq> Some []"
    using k by (simp add: keysValid_def list_all_iff)
  have row: "ledgerAgrees d' t' \<and> t_assigned_to t' \<noteq> Some []" if "t' \<in> set (tickets d')" for t'
  proof -
    from that obtain t where t: "t \<in> set (tickets d)" "t' = (if t_id t = i then f t else t)"
      unfolding rows by auto
    show ?thesis
    proof (cases "t_id t = i")
      case True
      then show ?thesis using same[OF t(1) True] t(2) by simp
    next
      case False
      then have "ledgerAgrees d' t = ledgerAgrees d t"
        by (intro ledgerAgrees_eq other)
      then show ?thesis using False t a[OF t(1)] ne[OF t(1)] by simp
    qed
  qed
  have "keysValid d'"
    using k row by (simp add: keysValid_def ids us list_all_iff)
  then show ?thesis
    using row by (simp add: ledgerInv_def list_all_iff)
qed

lemma ledgerInv_rows:
  "ledgerInv d \<Longrightarrow> t \<in> set (tickets d) \<Longrightarrow> ledgerAgrees d t \<and> t_assigned_to t \<noteq> Some []"
  by (simp add: ledgerInv_def keysValid_def list_all_iff)

lemma falsy_assignee:
  "ledgerInv d \<Longrightarrow> t \<in> set (tickets d) \<Longrightarrow> falsy (t_assigned_to t) \<Longrightarrow>
   activeAssignments d (t_id t) = []"
  using ledgerInv_rows[of d t] ledgerAgrees_none[of d t]
  by (cases "t_assigned_to t") (auto simp: falsy_def)

lemma assign_ticket_effect:
  assumes "assign_ticket d reqUser i assigned_to notes = (r, d')"
  shows "(\<exists>e. r = Inl e \<and> d' = d)
    \<or> (\<exists>ticket sid. r = Inr () \<and> findByPk d i = Some ticket \<and> t_status ticket = Approved
          \<and> assigned_to = Some sid \<and> sid \<noteq> []
          \<and> tickets d' = map (\<lambda>t. if t_id t = i
                 then t\<lparr>t_assigned_to := Some sid, t_status := InProgress\<rparr> else t) (tickets d)
          \<and> users d' = users d \<and> approvals d' = approvals d
          \<and> assignments d'
              = assignments (createAssignment (deactivateAssignments d i) i sid (u_id reqUser) notes)
          \<and> history d' = history d @
               [\<lparr>h_ticket_id = i, h_user_id = u_id reqUser, h_action = Assigned,
                 h_old_value = Some sid, h_new_value = Some sid,
                 h_field_name = Some ''assigned_to'', h_comment = notes\<rparr>])"
proof (cases "findByPk d i")
  case None
  then show ?thesis using assms[symmetric] by (auto simp: assign_ticket_def split: if_splits)
next
  case (Some ticket)
  note id = findByPk_id[OF Some]
  show ?thesis
  proof (cases assigned_to)
    case None
    then show ?thesis using assms[symmetric] by (auto simp: assign_ticket_def falsy_def)
  next
    case a: (Some sid)
    show ?thesis
      using assms[symmetric] Some a id
      by (simp add: assign_ticket_def Let_def falsy_def str_def createAssignment_def
          split: if_splits option.splits)
  qed
qed


lemma self_assign_effect:
  assumes "self_assign d reqUser i notes = (r, d')"
  shows "(\<exists>e. r = Inl e \<and> d' = d)
    \<or> (\<exists>ticket. r = Inr () \<and> findByPk d i = Some ticket \<and> t_status ticket = Approved
          \<and> falsy (t_assigned_to ticket) \<and> activeTicketCount d (u_id reqUser) < maxWorkload
          \<and> tickets d' = map (\<lambda>t. if t_id t = i
                 then t\<lparr>t_assigned_to := Some (u_id reqUser), t_status := InProgress\<rparr> else t)
                 (tickets d)
          \<and> users d' = users d \<and> approvals d' = approvals d
          \<and> assignments d'
              = assignments (createAssignment d i (u_id reqUser) (u_id reqUser)
                   (if falsy notes then Some ''Self-assigned'' else notes))
          \<and> history d' = history d @
               [\<lparr>h_ticket_id = i, h_user_id = u_id reqUser, h_action = Assigned,
                 h_old_value = None, h_new_value = Some (u_id reqUser),
                 h_field_name = Some ''assigned_to'',
                 h_comment = (if falsy notes then Some ''Self-assigned'' else notes)\<rparr>])"
proof (cases "findByPk d i")
  case None
  then show ?thesis using assms[symmetric] by (auto simp: self_assign_def)
next
  case (Some ticket)
  note id = findByPk_id[OF Some]
  show ?thesis
    using assms[symmetric] Some id
    by (auto simp: self_assign_def Let_def createAssignment_def split: if_splits)
qed

lemma reassign_ticket_effect:
  assumes "reassign_ticket d reqUser i assigned_to reason = (r, d')"
  shows "(\<exists>e. r = Inl e \<and> d' = d)
    \<or> (\<exists>ticket sid. r = Inr () \<and> findByPk d i = Some ticket
          \<and> \<not> falsy (t_assigned_to ticket) \<and> assigned_to = Some sid \<and> sid \<noteq> []
          \<and> tickets d' = map (\<lambda>t. if t_id t = i then t\<lparr>t_assigned_to := Some sid\<rparr> else t)
                 (tickets d)
          \<and> users d' = users d \<and> approvals d' = approvals d
          \<and> assignments d'
              = assignments (createAssignment (deactivateAssignments d i) i sid (u_id reqUser)
                   reason)
          \<and> history d' = history d @
               [\<lparr>h_ticket_id = i, h_user_id = u_id reqUser, h_action = Assigned,
                 h_old_value = t_assigned_to ticket, h_new_value = Some sid,
                 h_field_name = Some ''assigned_to'', h_comment = reason\<rparr>])"
proof (cases "findByPk d i")
  case None
  then show ?thesis using assms[symmetric] by (auto simp: reassign_ticket_def split: if_splits)
next
  case (Some ticket)
  note id = findByPk_id[OF Some]
  show ?thesis
  proof (cases assigned_to)
    case None
    then show ?thesis using assms[symmetric] by (auto simp: reassign_ticket_def falsy_def)
  next
    case a: (Some sid)
    show ?thesis
      using assms[symmetric] Some a id
      by (auto simp: reassign_ticket_def Let_def falsy_def str_def createAssignment_def
          split: if_splits option.splits)
  qed
qed

lemma unassign_ticket_effect:
  assumes "unassign_ticket d reqUser i reason = (r, d')"
  shows "(\<exists>e. r = Inl e \<and> d' = d)
    \<or> (\<exists>ticket. r = Inr () \<and> findByPk d i = Some ticket \<and> \<not> falsy (t_assigned_to ticket)
          \<and> tickets d' = map (\<lambda>t. if t_id t = i
                 then t\<lparr>t_assigned_to := None, t_status := Approved\<rparr> else t) (tickets d)
          \<and> users d' = users d \<and> approvals d' = approvals d
          \<and> assignments d' = assignments (deactivateAssignments d i)
          \<and> history d' = history d @
               [\<lparr>h_ticket_id = i, h_user_id = u_id reqUser, h_action = Assigned,
                 h_old_value = t_assigned_to ticket, h_new_value = None,
                 h_field_name = Some ''assigned_to'', h_comment = reason\<rparr>])"
proof (cases "findByPk d i")
  case None
  then show ?thesis using assms[symmetric] by (auto simp: unassign_ticket_def)
next
  case (Some ticket)
  note id = findByPk_id[OF Some]
  show ?thesis
    using assms[symmetric] Some id
    by (auto simp: unassign_ticket_def Let_def deactivateAssignments_def split: if_splits)
qed

lemma assign_ticket_ledger:
  assumes inv: "ledgerInv d"
  shows "ledgerInv (snd (assign_ticket d reqUser i assigned_to notes))"
proof -
  obtain r d' where res: "assign_ticket d reqUser i assigned_to notes = (r, d')"
    by (cases "assign_ticket d reqUser i assigned_to notes")
  from assign_ticket_effect[OF res] show ?thesis
  proof (elim disjE exE conjE)
    fix e assume "d' = d" then show ?thesis using inv res by simp
  next
    fix ticket sid
    assume sid: "sid \<noteq> []"
      and rows: "tickets d' = map (\<lambda>t. if t_id t = i
                 then t\<lparr>t_assigned_to := Some sid, t_status := InProgress\<rparr> else t) (tickets d)"
      and us: "users d' = users d"
      and as: "assignments d'
              = assignments (createAssignment (deactivateAssignments d i) i sid (u_id reqUser) notes)"
    have act: "activeAssignments d' j
        = activeAssignments (createAssignment (deactivateAssignments d i) i sid (u_id reqUser) notes) j"
      for j using as by (rule activeAssignments_eq)
    have "ledgerInv d'"
    proof (rule ledger_step[OF inv us rows])
      show "t_id (t\<lparr>t_assigned_to := Some sid, t_status := InProgress\<rparr>) = t_id t" for t by simp
      show "activeAssignments d' j = activeAssignments d j" if "j \<noteq> i" for j
        using that by (simp add: act activeAssignments_create activeAssignments_deactivate)
      show "ledgerAgrees d' (t\<lparr>t_assigned_to := Some sid, t_status := InProgress\<rparr>)
          \<and> t_assigned_to (t\<lparr>t_assigned_to := Some sid, t_status := InProgress\<rparr>) \<noteq> Some []"
        if "t \<in> set (tickets d)" "t_id t = i" for t
        using that sid
        by (simp add: ledgerAgrees_def act activeAssignments_create activeAssignments_deactivate)
    qed
    then show ?thesis using res by simp
  qed
qed

lemma reassign_ticket_ledger:
  assumes inv: "ledgerInv d"
  shows "ledgerInv (snd (reassign_ticket d reqUser i assigned_to reason))"
proof -
  obtain r d' where res: "reassign_ticket d reqUser i assigned_to reason = (r, d')"
    by (cases "reassign_ticket d reqUser i assigned_to reason")
  from reassign_ticket_effect[OF res] show ?thesis
  proof (elim disjE exE conjE)
    fix e assume "d' = d" then show ?thesis using inv res by simp
  next
    fix ticket sid
    assume sid: "sid \<noteq> []"
      and rows: "tickets d' = map (\<lambda>t. if t_id t = i then t\<lparr>t_assigned_to := Some sid\<rparr> else t)
                 (tickets d)"
      and us: "users d' = users d"
      and as: "assignments d'
              = assignments (createAssignment (deactivateAssignments d i) i sid (u_id reqUser) reason)"
    have act: "activeAssignments d' j
        = activeAssignments (createAssignment (deactivateAssignments d i) i sid (u_id reqUser) reason) j"
      for j using as by (rule activeAssignments_eq)
    have "ledgerInv d'"
    proof (rule ledger_step[OF inv us rows])
      show "t_id (t\<lparr>t_assigned_to := Some sid\<rparr>) = t_id t" for t by simp
      show "activeAssignments d' j = activeAssignments d j" if "j \<noteq> i" for j
        using that by (simp add: act activeAssignments_create activeAssignments_deactivate)
      show "ledgerAgrees d' (t\<lparr>t_assigned_to := Some sid\<rparr>)
          \<and> t_assigned_to (t\<lparr>t_assigned_to := Some sid\<rparr>) \<noteq> Some []"
        if "t \<in> set (tickets d)" "t_id t = i" for t
        using that sid
        by (simp add: ledgerAgrees_def act activeAssignments_create activeAssignments_deactivate)
    qed
    then show ?thesis using res by simp
  qed
qed

lemma unassign_ticket_ledger:
  assumes inv: "ledgerInv d"
  shows "ledgerInv (snd (unassign_ticket d reqUser i reason))"
proof -
  obtain r d' where res: "unassign_ticket d reqUser i reason = (r, d')"
    by (cases "unassign_ticket d reqUser i reason")
  from unassign_ticket_effect[OF res] show ?thesis
  proof (elim disjE exE conjE)
    fix e assume "d' = d" then show ?thesis using inv res by simp
  next
    fix ticket
    assume rows: "tickets d' = map (\<lambda>t. if t_id t = i
                 then t\<lparr>t_assigned_to := None, t_status := Approved\<rparr> else t) (tickets d)"
      and us: "users d' = users d"
      and as: "assignments d' = assignments (deactivateAssignments d i)"
    have act: "activeAssignments d' j = activeAssignments (deactivateAssignments d i) j"
      for j using as by (rule activeAssignments_eq)
    have "ledgerInv d'"
    proof (rule ledger_step[OF inv us rows])
      show "t_id (t\<lparr>t_assigned_to := None, t_status := Approved\<rparr>) = t_id t" for t by simp
      show "activeAssignments d' j = activeAssignments d j" if "j \<noteq> i" for j
        using that by (simp add: act activeAssignments_deactivate)
      show "ledgerAgrees d' (t\<lparr>t_assigned_to := None, t_status := Approved\<rparr>)
          \<and> t_assigned_to (t\<lparr>t_assigned_to := None, t_status := Approved\<rparr>) \<noteq> Some []"
        if "t \<in> set (tickets d)" "t_id t = i" for t
        using that by (simp add: ledgerAgrees_def act activeAssignments_deactivate)
    qed
    then show ?thesis using res by simp
  qed
qed

lemma self_assign_ledger:
  assumes inv: "ledgerInv d" and actor: "u_id reqUser \<noteq> []"
  shows "ledgerInv (snd (self_assign d reqUser i notes))"
proof -
  obtain r d' where res: "self_assign d reqUser i notes = (r, d')"
    by (cases "self_assign d reqUser i notes")
  from self_assign_effect[OF res] show ?thesis
  proof (elim disjE exE conjE)
    fix e assume "d' = d" then show ?thesis using inv res by simp
  next
    fix ticket
    assume found: "findByPk d i = Some ticket" and free: "falsy (t_assigned_to ticket)"
      and rows: "tickets d' = map (\<lambda>t. if t_id t = i
                 then t\<lparr>t_assigned_to := Some (u_id reqUser), t_status := InProgress\<rparr> else t)
                 (tickets d)"
      and us: "users d' = users d"
      and as: "assignments d'
              = assignments (createAssignment d i (u_id reqUser) (u_id reqUser)
                   (if falsy notes then Some ''Self-assigned'' else notes))"
    have act: "activeAssignments d' j
        = activeAssignments (createAssignment d i (u_id reqUser) (u_id reqUser)
                   (if falsy notes then Some ''Self-assigned'' else notes)) j"
      for j using as by (rule activeAssignments_eq)
    have none: "activeAssignments d i = []"
      using falsy_assignee[OF inv findByPk_mem[OF found] free] findByPk_id[OF found] by simp
    have "ledgerInv d'"
    proof (rule ledger_step[OF inv us rows])
      show "t_id (t\<lparr>t_assigned_to := Some (u_id reqUser), t_status := InProgress\<rparr>) = t_id t"
        for t by simp
      show "activeAssignments d' j = activeAssignments d j" if "j \<noteq> i" for j
        using that by (simp add: act activeAssignments_create)
      show "ledgerAgrees d' (t\<lparr>t_assigned_to := Some (u_id reqUser), t_status := InProgress\<rparr>)
          \<and> t_assigned_to (t\<lparr>t_assigned_to := Some (u_id reqUser), t_status := InProgress\<rparr>)
              \<noteq> Some []"
        if "t \<in> set (tickets d)" "t_id t = i" for t
        using that actor none
        by (simp add: ledgerAgrees_def act activeAssignments_create)
    qed
    then show ?thesis using res by simp
  qed
qed

lemma auto_assign_loop_ledger:
  assumes "ledgerInv d" and "w \<noteq> []" and "\<forall>sid \<in> set (map (\<lambda>p. u_id (fst p)) w). sid \<noteq> []"
    and "distinct (map t_id ts)" and "\<forall>t \<in> set ts. activeAssignments d (t_id t) = []"
  shows "ledgerInv (snd (auto_assign_loop reqUser ts w k acc d))"
  using assms
proof (induction ts arbitrary: w k acc d)
  case Nil
  then show ?case by simp
next
  case (Cons t ts)
  let ?slot = "k mod length w"
  let ?w1 = "w[?slot := (fst (w ! ?slot), Suc (snd (w ! ?slot)))]"
  let ?sid = "u_id (fst (w ! ?slot))"
  let ?reason = "Some ''Auto-assigned based on workload balancing''"
  let ?d4 = "createNotification
      (createTicketHistory
        (update_ticket
          (createAssignment d (t_id t) ?sid (u_id reqUser) ?reason)
          (t_id t) (\<lambda>t. t\<lparr>t_assigned_to := Some ?sid, t_status := InProgress\<rparr>))
        (t_id t) (u_id reqUser) Assigned None (Some ?sid) (Some ''assigned_to'') ?reason)
      ?sid ''ticket_assigned''"
  have sl: "?slot < length w" using Cons.prems(2) by simp
  have ne: "?w1 \<noteq> []" using Cons.prems(2) by simp
  have ids: "set (map (\<lambda>p. u_id (fst p)) ?w1) = set (map (\<lambda>p. u_id (fst p)) w)"
    using sl by (rule workload_ids_bump)
  have mem: "?sid \<in> set (map (\<lambda>p. u_id (fst p)) w)"
    using sl by (simp add: image_iff) (metis nth_mem)
  then have sid: "?sid \<noteq> []" using Cons.prems(3) by blast
  have step: "auto_assign_loop reqUser (t # ts) w k acc d
      = auto_assign_loop reqUser ts ?w1 (Suc k) (acc @ [(t_id t, ?sid)]) ?d4"
    by (simp add: Let_def)
  have act: "activeAssignments ?d4 j
      = activeAssignments (createAssignment d (t_id t) ?sid (u_id reqUser) ?reason) j" for j
    by (rule activeAssignments_eq) (simp add: createAssignment_def)
  have none: "activeAssignments d (t_id t) = []" using Cons.prems(5) by simp
  have inv4: "ledgerInv ?d4"
  proof (rule ledger_step[OF Cons.prems(1), where i="t_id t"
        and f="\<lambda>t. t\<lparr>t_assigned_to := Some ?sid, t_status := InProgress\<rparr>"])
    show "users ?d4 = users d" by simp
    show "tickets ?d4 = map (\<lambda>r. if t_id r = t_id t
        then r\<lparr>t_assigned_to := Some ?sid, t_status := InProgress\<rparr> else r) (tickets d)"
      by simp
    show "t_id (r\<lparr>t_assigned_to := Some ?sid, t_status := InProgress\<rparr>) = t_id r" for r by simp
    show "activeAssignments ?d4 j = activeAssignments d j" if "j \<noteq> t_id t" for j
      using that by (simp add: act activeAssignments_create)
    show "ledgerAgrees ?d4 (r\<lparr>t_assigned_to := Some ?sid, t_status := InProgress\<rparr>)
        \<and> t_assigned_to (r\<lparr>t_assigned_to := Some ?sid, t_status := InProgress\<rparr>) \<noteq> Some []"
      if "r \<in> set (tickets d)" "t_id r = t_id t" for r
      using that sid none by (simp add: ledgerAgrees_def act activeAssignments_create)
  qed
  have rest: "\<forall>t' \<in> set ts. activeAssignments ?d4 (t_id t') = []"
  proof
    fix t' assume t': "t' \<in> set ts"
    then have "t_id t' \<in> t_id ` set ts" by (rule imageI)
    then have "t_id t' \<noteq> t_id t" using Cons.prems(4) by auto
    then show "activeAssignments ?d4 (t_id t') = []"
      using Cons.prems(5) t' by (simp add: act activeAssignments_create)
  qed
  have w1: "\<forall>sid \<in> set (map (\<lambda>p. u_id (fst p)) ?w1). sid \<noteq> []"
    using Cons.prems(3) unfolding ids .
  have dist: "distinct (map t_id ts)" using Cons.prems(4) by simp
  from Cons.IH[OF inv4 ne w1 dist rest] show ?case unfolding step .
qed

lemma unassignedTickets_sub:
  "t \<in> set (unassignedTickets rank d f n) \<Longrightarrow> t \<in> set (tickets d) \<and> t_assigned_to t = None"
  by (auto simp: unassignedTickets_def dest!: in_set_takeD)

lemma unassignedTickets_distinct:
  assumes "distinct (map t_id (tickets d))"
  shows "distinct (map t_id (unassignedTickets rank d f n))"
proof -
  let ?P = "\<lambda>t. t_factory_id t = f \<and> t_status t = Approved \<and> t_assigned_to t = None"
  have 1: "distinct (map t_id (filter ?P (tickets d)))"
    using assms by (rule distinct_map_filter)
  have 2: "distinct (map t_id (sort_key k xs)) = distinct (map t_id xs)"
    for k :: "ticket \<Rightarrow> int" and xs
    by (simp only: distinct_map distinct_sort set_sort)
  have "distinct (map t_id (sort_key (\<lambda>t. - rank (t_priority t))
          (sort_key t_created_at (filter ?P (tickets d)))))"
    using 1 by (simp only: 2)
  then show ?thesis
    unfolding unassignedTickets_def take_map[symmetric] by (rule distinct_take)
qed

lemma auto_assign_ledger:
  assumes inv: "ledgerInv d"
  shows "ledgerInv (snd (auto_assign rank d reqUser factory_id max_assignments))"
proof -
  let ?f = "str factory_id"
  let ?n = "case max_assignments of None \<Rightarrow> 5 | Some m \<Rightarrow> m"
  let ?sel = "unassignedTickets rank d ?f ?n"
  let ?w = "staffWorkload d ?f"
  show ?thesis
  proof (cases "falsy factory_id \<or> ?sel = [] \<or> supportStaff d ?f = []")
    case True
    then show ?thesis using inv by (auto simp: auto_assign_def Let_def)
  next
    case False
    then have eq: "snd (auto_assign rank d reqUser factory_id max_assignments)
        = snd (auto_assign_loop reqUser ?sel ?w 0 [] d)"
      by (simp add: auto_assign_def Let_def case_prod_beta)
    have k: "keysValid d" using inv by (simp add: ledgerInv_def)
    have ne: "?w \<noteq> []"
      using False staffWorkload_length[of d ?f] by (metis length_0_conv)
    have "set (map (\<lambda>p. u_id (fst p)) ?w) = u_id ` set (supportStaff d ?f)"
      using staffWorkload_set[of d ?f] by (simp add: image_image[symmetric])
    moreover have "set (supportStaff d ?f) \<subseteq> set (users d)"
      by (auto simp: supportStaff_def)
    ultimately have ids: "\<forall>sid \<in> set (map (\<lambda>p. u_id (fst p)) ?w). sid \<noteq> []"
      using k by (auto simp: keysValid_def list_all_iff)
    have dist: "distinct (map t_id ?sel)"
      using k by (intro unassignedTickets_distinct) (simp add: keysValid_def)
    have none: "\<forall>t \<in> set ?sel. activeAssignments d (t_id t) = []"
    proof
      fix t assume "t \<in> set ?sel"
      from unassignedTickets_sub[OF this] ledgerInv_rows[OF inv, of t]
      show "activeAssignments d (t_id t) = []"
        by (intro ledgerAgrees_none) simp_all
    qed
    from auto_assign_loop_ledger[OF inv ne ids dist none] show ?thesis unfolding eq .
  qed
qed

lemma step_ledger:
  assumes "ledgerInv d" and "isAssignmentRequest req" and "u_id (requestUser req) \<noteq> []"
  shows "ledgerInv (step rank d req)"
  using assms
  by (cases req)
     (simp_all add: assign_ticket_ledger self_assign_ledger reassign_ticket_ledger
        unassign_ticket_ledger auto_assign_ledger)

lemma run_ledger:
  assumes "ledgerInv d" and "list_all isAssignmentRequest reqs"
    and "list_all (\<lambda>req. u_id (requestUser req) \<noteq> []) reqs"
  shows "ledgerInv (run rank d reqs)"
  using assms unfolding run_def
  by (induction reqs arbitrary: d) (simp_all add: step_ledger)

text \<open>
  C2. From tables in which every ticket agrees with the ledger (and identifiers are
  unique and not empty), after any sequence of assign, self-assign, reassign, unassign and
  automatic-assignment requests by authenticated users, every ticket has at most one
  active assignment record; when it has one, the ticket's assignee is the assignee of
  that record, and when it has none, the ticket has no assignee.
\<close>

theorem C2_single_active_assignment:
  assumes "ledgerInv d" and "list_all isAssignmentRequest reqs"
    and "list_all (\<lambda>req. u_id (requestUser req) \<noteq> []) reqs"
  shows "\<forall>t \<in> set (tickets (run rank d reqs)).
           length (activeAssignments (run rank d reqs) (t_id t)) \<le> 1
           \<and> (\<forall>a \<in> set (activeAssignments (run rank d reqs) (t_id t)).
                 t_assigned_to t = Some (a_assigned_to a))
           \<and> (activeAssignments (run rank d reqs) (t_id t) = [] \<longrightarrow> t_assigned_to t = None)"
proof
  fix t assume t: "t \<in> set (tickets (run rank d reqs))"
  have "ledgerInv (run rank d reqs)" using assms by (rule run_ledger)
  then have "ledgerAgrees (run rank d reqs) t"
    using t by (simp add: ledgerInv_def list_all_iff)
  then show "length (activeAssignments (run rank d reqs) (t_id t)) \<le> 1
           \<and> (\<forall>a \<in> set (activeAssignments (run rank d reqs) (t_id t)).
                 t_assigned_to t = Some (a_assigned_to a))
           \<and> (activeAssignments (run rank d reqs) (t_id t) = [] \<longrightarrow> t_assigned_to t = None)"
    by (auto simp: ledgerAgrees_def split: list.splits)
qed

lemmas handler_defs = assign_ticket_def self_assign_def reassign_ticket_def unassign_ticket_def
  findByPk_def findUserByPk_def deactivateAssignments_def maxWorkload_def

theorem C2_single_active_assignment_witness:
  "ledgerInv waitingDb \<and> list_all isAssignmentRequest assignmentRequests
   \<and> list_all (\<lambda>req. u_id (requestUser req) \<noteq> []) assignmentRequests
   \<and> map (\<lambda>t. (t_id t, t_assigned_to t)) (tickets (run (\<lambda>p. 0) waitingDb assignmentRequests))
       = [(''t1'', Some ''u-b''), (''t2'', Some ''u-a''), (''t3'', Some ''u-b'')]
   \<and> list_all (\<lambda>t. length (activeAssignments (run (\<lambda>p. 0) waitingDb assignmentRequests) (t_id t))
                     \<le> 1)
        (tickets (run (\<lambda>p. 0) waitingDb assignmentRequests))"
proof -
  let ?D = "run (\<lambda>p. 0) waitingDb assignmentRequests"
  have inv: "ledgerInv waitingDb"
    by (simp add: ledgerInv_def keysValid_def ledgerAgrees_def activeAssignments_def
        waitingDb_def eval_defs)
  have r1: "list_all isAssignmentRequest assignmentRequests"
    by (simp add: assignmentRequests_def)
  have r2: "list_all (\<lambda>req. u_id (requestUser req) \<noteq> []) assignmentRequests"
    by (simp add: assignmentRequests_def adminUser_def staffA_def)
  have rows: "map (\<lambda>t. (t_id t, t_assigned_to t)) (tickets ?D)
       = [(''t1'', Some ''u-b''), (''t2'', Some ''u-a''), (''t3'', Some ''u-b'')]"
    by (simp add: run_def assignmentRequests_def handler_defs waitingDb_def eval_defs)
  from C2_single_active_assignment[OF inv r1 r2, of "\<lambda>p. 0"]
  have "list_all (\<lambda>t. length (activeAssignments ?D (t_id t)) \<le> 1) (tickets ?D)"
    by (simp add: list_all_iff)
  with inv r1 r2 rows show ?thesis by (intro conjI)
qed

section \<open>The approval records\<close>

































end
